theory Spec2Isabelle
  imports Complex_Main
begin

section \<open>Pause detection on a GPS track: the model of BreakDetection.py\<close>

text \<open>
  Numbers. Python floats are idealised as exact reals, with one exception. Line 24 of
  the program computes the haversine term \<open>a\<close> in double precision, and for two points
  that are nearly antipodal the rounded value can lie a little above 1; line 25 then
  takes the square root of a negative number and raises. The model keeps that: the
  double computed on line 24 is the real value of the expression plus
  \<open>err lat1 lon1 lat2 lon2\<close>, where \<open>err\<close>, the rounding error of that line at these
  arguments, is a parameter of \<open>haversine\<close> and of every function that calls it.
  Nothing is assumed of \<open>err\<close> unless a statement says so; \<open>no_rounding\<close> is the
  error that is 0 everywhere.

  A timestamp (an aware \<^verbatim>\<open>datetime\<close>) is a real number of seconds on one time line;
  \<^verbatim>\<open>timedelta(seconds=d)\<close> is the real \<open>d\<close> and \<^verbatim>\<open>total_seconds()\<close> is
  the difference of two timestamps. Python integers (indices, point counts) are \<open>int\<close>.

  Errors. A Python exception is a value \<open>Inl e\<close> of the result type
  \<open>py_error + 'a\<close>; Python's \<^verbatim>\<open>None\<close> ("no data") is \<open>None\<close> of an option.
  Printing is left out: it does not change any value.
\<close>

datatype py_error = IndexError | ValueError | ZeroDivisionError | TypeError

definition bindE :: "py_error + 'a \<Rightarrow> ('a \<Rightarrow> py_error + 'b) \<Rightarrow> py_error + 'b" where
  "bindE m f = (case m of Inl e \<Rightarrow> Inl e | Inr v \<Rightarrow> f v)"

text \<open>\<^verbatim>\<open>xs[i]\<close>: a negative index counts from the end, anything out of range raises.\<close>

definition getitem :: "'a list \<Rightarrow> int \<Rightarrow> py_error + 'a" where
  "getitem xs i =
     (if 0 \<le> i \<and> i < int (length xs) then Inr (xs ! nat i)
      else if i < 0 \<and> - int (length xs) \<le> i then Inr (xs ! nat (int (length xs) + i))
      else Inl IndexError)"

text \<open>\<^verbatim>\<open>range(a, b)\<close> and \<^verbatim>\<open>range(a, -1, -1)\<close>.\<close>

definition py_range :: "int \<Rightarrow> int \<Rightarrow> int list" where
  "py_range a b = [a..b - 1]"

definition py_range_down :: "int \<Rightarrow> int list" where
  "py_range_down a = rev [0..a]"

text \<open>\<^verbatim>\<open>x / y\<close> on floats raises on a zero divisor.\<close>

definition truediv :: "real \<Rightarrow> real \<Rightarrow> py_error + real" where
  "truediv x y = (if y = 0 then Inl ZeroDivisionError else Inr (x / y))"

subsection \<open>The math module\<close>

definition radians :: "real \<Rightarrow> real" where
  "radians x = x * (pi / 180)"

text \<open>\<^verbatim>\<open>math.sqrt\<close> raises ValueError (math domain error) below zero.\<close>

definition math_sqrt :: "real \<Rightarrow> py_error + real" where
  "math_sqrt x = (if x < 0 then Inl ValueError else Inr (sqrt x))"

definition math_atan2 :: "real \<Rightarrow> real \<Rightarrow> real" where
  "math_atan2 y x =
     (if 0 < x then arctan (y / x)
      else if x < 0 then (if 0 \<le> y then arctan (y / x) + pi else arctan (y / x) - pi)
      else if 0 < y then pi / 2
      else if y < 0 then - (pi / 2)
      else 0)"

subsection \<open>haversine\<close>

text \<open>The real value of the expression on line 24.\<close>

definition haversine_a :: "real \<Rightarrow> real \<Rightarrow> real \<Rightarrow> real \<Rightarrow> real" where
  "haversine_a lat1 lon1 lat2 lon2 =
     (let lat1_rad = radians lat1;
          lon1_rad = radians lon1;
          lat2_rad = radians lat2;
          lon2_rad = radians lon2;
          dlat = lat2_rad - lat1_rad;
          dlon = lon2_rad - lon1_rad
      in (sin (dlat / 2))\<^sup>2 + cos lat1_rad * cos lat2_rad * (sin (dlon / 2))\<^sup>2)"

type_synonym rounding_error = "real \<Rightarrow> real \<Rightarrow> real \<Rightarrow> real \<Rightarrow> real"

definition no_rounding :: rounding_error where
  "no_rounding = (\<lambda>lat1 lon1 lat2 lon2. 0)"

definition haversine :: "rounding_error \<Rightarrow> real \<Rightarrow> real \<Rightarrow> real \<Rightarrow> real \<Rightarrow> py_error + real" where
  "haversine err lat1 lon1 lat2 lon2 =
     (let R = 6371000;
          a = haversine_a lat1 lon1 lat2 lon2 + err lat1 lon1 lat2 lon2
      in bindE (math_sqrt a) (\<lambda>sa.
         bindE (math_sqrt (1 - a)) (\<lambda>sb.
           let c = 2 * math_atan2 sa sb;
               distance = R * c
           in Inr distance)))"

subsection \<open>The three window queries\<close>

text \<open>A fix is the tuple \<^verbatim>\<open>(lat, lon, timestamp)\<close> that the GPX reader produces.\<close>

type_synonym point = "real \<times> real \<times> real"

text \<open>
  \<^verbatim>\<open>calculate_max_distance_window\<close>. First loop: collect the fixes after
  \<open>start_index\<close> up to the first one later than \<open>end_time\<close>. Second loop: every pair
  of the window, \<open>window_points[i+1:]\<close> being the rest of the list.
\<close>

fun window_loop :: "point list \<Rightarrow> real \<Rightarrow> int list \<Rightarrow> point list \<Rightarrow> py_error + point list" where
  "window_loop points end_time [] window_points = Inr window_points"
| "window_loop points end_time (i # rest) window_points =
     bindE (getitem points i) (\<lambda>(lat, lon, t).
       if t \<le> end_time then window_loop points end_time rest (window_points @ [(lat, lon, t)])
       else Inr window_points)"

fun max_inner :: "rounding_error \<Rightarrow> real \<Rightarrow> real \<Rightarrow> point list \<Rightarrow> real \<Rightarrow> py_error + real" where
  "max_inner err lat1 lon1 [] max_distance = Inr max_distance"
| "max_inner err lat1 lon1 ((lat2, lon2, t2) # rest) max_distance =
     bindE (haversine err lat1 lon1 lat2 lon2) (\<lambda>distance.
       max_inner err lat1 lon1 rest (if distance > max_distance then distance else max_distance))"

fun max_outer :: "rounding_error \<Rightarrow> point list \<Rightarrow> real \<Rightarrow> py_error + real" where
  "max_outer err [] max_distance = Inr max_distance"
| "max_outer err ((lat1, lon1, t1) # rest) max_distance =
     bindE (max_inner err lat1 lon1 rest max_distance) (\<lambda>m. max_outer err rest m)"

definition calculate_max_distance_window :: "rounding_error \<Rightarrow> point list \<Rightarrow> int \<Rightarrow> real \<Rightarrow> py_error + real" where
  "calculate_max_distance_window err points start_index duration_seconds =
     bindE (getitem points start_index) (\<lambda>start_point.
       let start_time = snd (snd start_point);
           end_time = start_time + duration_seconds
       in bindE (window_loop points end_time
                   (py_range (start_index + 1) (int (length points))) [start_point])
            (\<lambda>window_points. max_outer err window_points 0))"

text \<open>\<^verbatim>\<open>calculate_average_pace_last_points\<close>.\<close>

fun pace_loop :: "rounding_error \<Rightarrow> point list \<Rightarrow> int list \<Rightarrow> real \<Rightarrow> real \<Rightarrow> py_error + real \<times> real" where
  "pace_loop err points [] total_distance total_time = Inr (total_distance, total_time)"
| "pace_loop err points (i # rest) total_distance total_time =
     bindE (getitem points i) (\<lambda>(lat1, lon1, ts1).
     bindE (getitem points (i + 1)) (\<lambda>(lat2, lon2, ts2).
     bindE (haversine err lat1 lon1 lat2 lon2) (\<lambda>d.
       pace_loop err points rest (total_distance + d) (total_time + (ts2 - ts1)))))"

definition calculate_average_pace_last_points ::
  "rounding_error \<Rightarrow> point list \<Rightarrow> int \<Rightarrow> int \<Rightarrow> py_error + real option" where
  "calculate_average_pace_last_points err points index nb_points =
     (let start_index = (if index < nb_points then 0 else index - nb_points)
      in if start_index \<ge> index then Inr None
         else bindE (pace_loop err points (py_range start_index index) 0 0)
                (\<lambda>(total_distance, total_time).
                   if total_distance = 0 \<or> total_time = 0 then Inr None
                   else bindE (truediv total_time total_distance) (\<lambda>q.
                          let pace = q * 1000 / 60 in Inr (Some pace))))"

text \<open>\<^verbatim>\<open>calculate_point_density_last_seconds\<close>.\<close>

fun density_loop :: "point list \<Rightarrow> real \<Rightarrow> int list \<Rightarrow> int \<Rightarrow> py_error + int" where
  "density_loop points start_time [] nb_window_points = Inr nb_window_points"
| "density_loop points start_time (i # rest) nb_window_points =
     bindE (getitem points i) (\<lambda>(lat, lon, t).
       if t \<ge> start_time then density_loop points start_time rest (nb_window_points + 1)
       else Inr nb_window_points)"

definition calculate_point_density_last_seconds ::
  "point list \<Rightarrow> int \<Rightarrow> real \<Rightarrow> py_error + real option" where
  "calculate_point_density_last_seconds points index duration_seconds =
     (if index = 0 then Inr None
      else bindE (getitem points index) (\<lambda>(lat, lon, current_time).
        let start_time = current_time - duration_seconds
        in bindE (density_loop points start_time (py_range_down index) 0) (\<lambda>nb_window_points.
             if nb_window_points < 2 then Inr None
             else bindE (getitem points index) (\<lambda>(lat1, lon1, t_last).
                  bindE (getitem points (index - nb_window_points + 1)) (\<lambda>(lat0, lon0, t_first).
                    let actual_time = t_last - t_first
                    in if actual_time = 0 then Inr None
                       else bindE (truediv (real_of_int nb_window_points) actual_time)
                              (\<lambda>density. Inr (Some density)))))))"

subsection \<open>Average pace during a pause\<close>

fun instantaneous_loop :: "rounding_error \<Rightarrow> point list \<Rightarrow> int list \<Rightarrow> real list \<Rightarrow> py_error + real list" where
  "instantaneous_loop err points [] instantaneous_paces = Inr instantaneous_paces"
| "instantaneous_loop err points (i # rest) instantaneous_paces =
     bindE (getitem points i) (\<lambda>(lat1, lon1, ts1).
     bindE (getitem points (i + 1)) (\<lambda>(lat2, lon2, ts2).
     bindE (haversine err lat1 lon1 lat2 lon2) (\<lambda>distance_meters.
       let duration_seconds = ts2 - ts1
       in if distance_meters > 0 \<and> duration_seconds > 0
          then bindE (truediv duration_seconds distance_meters) (\<lambda>q.
                 let pace_segment = q * 1000 / 60
                 in instantaneous_loop err points rest (instantaneous_paces @ [pace_segment]))
          else instantaneous_loop err points rest instantaneous_paces)))"

definition calculate_average_pace_during_pause ::
  "rounding_error \<Rightarrow> point list \<Rightarrow> int \<Rightarrow> int \<Rightarrow> py_error + real option" where
  "calculate_average_pace_during_pause err points start_index end_index =
     (if points = [] \<or> start_index \<ge> end_index then Inr None
      else bindE (instantaneous_loop err points (py_range start_index end_index) [])
             (\<lambda>instantaneous_paces.
                if length instantaneous_paces = 0 then Inr None
                else bindE (truediv (sum_list instantaneous_paces)
                                    (real (length instantaneous_paces)))
                       (\<lambda>average_pace. Inr (Some average_pace))))"

subsection \<open>detect_pauses\<close>

text \<open>
  The keyword arguments of \<^verbatim>\<open>detect_pauses\<close> are one record; \<open>default_config\<close>
  holds their default values. The function is modelled from the point where the
  track has been read: its first argument is the list \<^verbatim>\<open>extract_gpx_points\<close>
  returned.
\<close>

record config =
  threshold_start :: real
  threshold_end :: real
  time_window :: real
  pace_threshold :: real
  nb_points_pace :: int
  density_threshold :: real
  density_window :: real
  time_window_end :: real
  pace_threshold_end :: real
  nb_points_pace_end :: int

definition default_config :: config where
  "default_config =
     \<lparr>threshold_start = 30, threshold_end = 30, time_window = 45, pace_threshold = 15,
      nb_points_pace = 10, density_threshold = 1, density_window = 30, time_window_end = 30,
      pace_threshold_end = 20, nb_points_pace_end = 7\<rparr>"

text \<open>The dictionary \<^verbatim>\<open>pause_info\<close>; its key \<^verbatim>\<open>'end'\<close> is the field \<open>end_time\<close>.\<close>

record pause_info =
  start :: real
  end_time :: real
  duration_seconds :: real
  time_from_start_seconds :: real
  start_coords :: "real \<times> real"
  end_coords :: "real \<times> real"
  distance_meters :: real
  start_index :: int
  end_index :: int
  distance_start_km :: real
  distance_end_km :: real
  nb_points :: int

text \<open>The variables the scan updates; \<^verbatim>\<open>None\<close> is a value they can hold.\<close>

record scan_state =
  pauses :: "pause_info list"
  in_pause :: bool
  pause_start :: "point option"
  pause_start_index :: "int option"
  pause_start_distance :: "real option"

text \<open>Using \<^verbatim>\<open>None\<close> as a tuple, a range bound or a number raises TypeError.\<close>

definition not_none :: "'a option \<Rightarrow> py_error + 'a" where
  "not_none v = (case v of None \<Rightarrow> Inl TypeError | Some x \<Rightarrow> Inr x)"

fun cumulative_loop :: "rounding_error \<Rightarrow> point list \<Rightarrow> int list \<Rightarrow> real list \<Rightarrow> py_error + real list" where
  "cumulative_loop err points [] cumulative_distances = Inr cumulative_distances"
| "cumulative_loop err points (i # rest) cumulative_distances =
     bindE (getitem points i) (\<lambda>(lat1, lon1, t1).
     bindE (getitem points (i + 1)) (\<lambda>(lat2, lon2, t2).
     bindE (getitem cumulative_distances (- 1)) (\<lambda>previous.
     bindE (haversine err lat1 lon1 lat2 lon2) (\<lambda>d.
       cumulative_loop err points rest (cumulative_distances @ [previous + d])))))"

fun pause_distance_loop :: "rounding_error \<Rightarrow> point list \<Rightarrow> int list \<Rightarrow> real \<Rightarrow> py_error + real" where
  "pause_distance_loop err points [] distance_during_pause = Inr distance_during_pause"
| "pause_distance_loop err points (j # rest) distance_during_pause =
     bindE (getitem points j) (\<lambda>(lat1, lon1, t1).
     bindE (getitem points (j + 1)) (\<lambda>(lat2, lon2, t2).
     bindE (haversine err lat1 lon1 lat2 lon2) (\<lambda>d.
       pause_distance_loop err points rest (distance_during_pause + d))))"

text \<open>Lines 261 to 289: the record of a pause that the end condition closes at \<open>i\<close>.\<close>

definition close_pause ::
  "rounding_error \<Rightarrow> point list \<Rightarrow> real list \<Rightarrow> real \<Rightarrow> scan_state \<Rightarrow> point \<Rightarrow> int \<Rightarrow> py_error + pause_info" where
  "close_pause err points cumulative_distances activity_start_time s current_point i =
     (let pause_end = current_point;
          pause_end_index = i
      in bindE (getitem cumulative_distances i) (\<lambda>pause_end_distance.
         bindE (not_none (pause_start s)) (\<lambda>(lat0, lon0, t0).
           let duration = snd (snd pause_end) - t0
           in bindE (not_none (pause_start_index s)) (\<lambda>first_index.
              bindE (pause_distance_loop err points (py_range first_index pause_end_index) 0)
                (\<lambda>distance_during_pause.
                   let time_from_start = t0 - activity_start_time
                   in bindE (not_none (pause_start_distance s)) (\<lambda>first_distance.
                        Inr \<lparr>start = t0,
                             end_time = snd (snd pause_end),
                             duration_seconds = duration,
                             time_from_start_seconds = time_from_start,
                             start_coords = (lat0, lon0),
                             end_coords = (fst pause_end, fst (snd pause_end)),
                             distance_meters = distance_during_pause,
                             start_index = first_index,
                             end_index = pause_end_index,
                             distance_start_km = first_distance / 1000,
                             distance_end_km = pause_end_distance / 1000,
                             nb_points = pause_end_index - first_index + 1\<rparr>))))))"

text \<open>Lines 308 to 336: the record of a pause still open when the track ends.\<close>

definition close_pause_at_end ::
  "rounding_error \<Rightarrow> point list \<Rightarrow> real list \<Rightarrow> real \<Rightarrow> scan_state \<Rightarrow> py_error + pause_info" where
  "close_pause_at_end err points cumulative_distances activity_start_time s =
     bindE (getitem points (- 1)) (\<lambda>pause_end.
       let pause_end_index = int (length points) - 1
       in bindE (getitem cumulative_distances pause_end_index) (\<lambda>pause_end_distance.
          bindE (not_none (pause_start s)) (\<lambda>(lat0, lon0, t0).
            let duration = snd (snd pause_end) - t0
            in bindE (not_none (pause_start_index s)) (\<lambda>first_index.
               bindE (pause_distance_loop err points (py_range first_index pause_end_index) 0)
                 (\<lambda>distance_during_pause.
                    let time_from_start = t0 - activity_start_time
                    in bindE (not_none (pause_start_distance s)) (\<lambda>first_distance.
                         Inr \<lparr>start = t0,
                              end_time = snd (snd pause_end),
                              duration_seconds = duration,
                              time_from_start_seconds = time_from_start,
                              start_coords = (lat0, lon0),
                              end_coords = (fst pause_end, fst (snd pause_end)),
                              distance_meters = distance_during_pause,
                              start_index = first_index,
                              end_index = pause_end_index,
                              distance_start_km = first_distance / 1000,
                              distance_end_km = pause_end_distance / 1000,
                              nb_points = pause_end_index - first_index + 1\<rparr>))))))"

text \<open>One turn of the \<^verbatim>\<open>while\<close> loop, at index \<open>i\<close>.\<close>

definition scan_step ::
  "rounding_error \<Rightarrow> config \<Rightarrow> point list \<Rightarrow> real list \<Rightarrow> real \<Rightarrow> int \<Rightarrow> scan_state \<Rightarrow> py_error + scan_state" where
  "scan_step err cfg points cumulative_distances activity_start_time i s =
     bindE (getitem points i) (\<lambda>current_point.
       if \<not> in_pause s then
         bindE (calculate_max_distance_window err points i (time_window cfg)) (\<lambda>max_distance.
         bindE (calculate_average_pace_last_points err points i (nb_points_pace cfg)) (\<lambda>avg_pace.
         bindE (calculate_point_density_last_seconds points i (density_window cfg)) (\<lambda>point_density.
           let distance_criterion = max_distance < threshold_start cfg;
               pace_criterion = (case avg_pace of None \<Rightarrow> True | Some v \<Rightarrow> v > pace_threshold cfg);
               density_criterion =
                 (case point_density of None \<Rightarrow> True | Some v \<Rightarrow> v < density_threshold cfg)
           in if distance_criterion \<and> pace_criterion \<and> density_criterion
              then bindE (getitem cumulative_distances i) (\<lambda>distance_here.
                     Inr (s\<lparr>in_pause := True,
                            pause_start := Some current_point,
                            pause_start_index := Some i,
                            pause_start_distance := Some distance_here\<rparr>))
              else Inr s)))
       else
         bindE (calculate_max_distance_window err points i (time_window_end cfg)) (\<lambda>max_distance.
         bindE (calculate_average_pace_last_points err points i (nb_points_pace_end cfg)) (\<lambda>avg_pace.
           let distance_criterion = max_distance > threshold_end cfg;
               pace_criterion =
                 (case avg_pace of None \<Rightarrow> False | Some v \<Rightarrow> v < pace_threshold_end cfg)
           in if distance_criterion \<and> pace_criterion
              then bindE (close_pause err points cumulative_distances activity_start_time s
                            current_point i)
                     (\<lambda>info. Inr (s\<lparr>pauses := pauses s @ [info],
                                     in_pause := False,
                                     pause_start := None,
                                     pause_start_index := None,
                                     pause_start_distance := None\<rparr>))
              else Inr s)))"

function scan_loop ::
  "rounding_error \<Rightarrow> config \<Rightarrow> point list \<Rightarrow> real list \<Rightarrow> real \<Rightarrow> int \<Rightarrow> scan_state \<Rightarrow> py_error + scan_state" where
  "scan_loop err cfg points cumulative_distances activity_start_time i s =
     (if i < int (length points)
      then bindE (scan_step err cfg points cumulative_distances activity_start_time i s)
             (\<lambda>s'. scan_loop err cfg points cumulative_distances activity_start_time (i + 1) s')
      else Inr s)"
  by pat_completeness auto
termination
  by (relation "measure (\<lambda>(err, cfg, points, cumulative_distances, activity_start_time, i, s).
                   nat (int (length points) - i))") auto

declare scan_loop.simps [simp del]

definition initial_state :: scan_state where
  "initial_state =
     \<lparr>pauses = [], in_pause = False, pause_start = None, pause_start_index = None,
      pause_start_distance = None\<rparr>"

definition detect_pauses :: "rounding_error \<Rightarrow> point list \<Rightarrow> config \<Rightarrow> py_error + pause_info list \<times> point list" where
  "detect_pauses err points cfg =
     (if length points < 2 then Inr ([], points)
      else bindE (getitem points 0) (\<lambda>(lat, lon, activity_start_time).
           bindE (cumulative_loop err points (py_range 0 (int (length points) - 1)) [0])
             (\<lambda>cumulative_distances.
           bindE (scan_loop err cfg points cumulative_distances activity_start_time 0 initial_state)
             (\<lambda>s.
                if in_pause s
                then bindE (close_pause_at_end err points cumulative_distances activity_start_time s)
                       (\<lambda>info. Inr (pauses s @ [info], points))
                else Inr (pauses s, points)))))"

subsection \<open>The quantities the specification names\<close>

definition fix_time :: "point \<Rightarrow> real" where
  "fix_time p = snd (snd p)"

text \<open>
  The double that line 24 leaves in \<open>a\<close>; \<open>haversine\<close> returns exactly when it lies
  in [0, 1], and \<open>great_circle\<close> is the distance it then returns.
\<close>

definition computed_a :: "rounding_error \<Rightarrow> real \<Rightarrow> real \<Rightarrow> real \<Rightarrow> real \<Rightarrow> real" where
  "computed_a err lat1 lon1 lat2 lon2 = haversine_a lat1 lon1 lat2 lon2 + err lat1 lon1 lat2 lon2"

definition in_domain :: "rounding_error \<Rightarrow> real \<Rightarrow> real \<Rightarrow> real \<Rightarrow> real \<Rightarrow> bool" where
  "in_domain err lat1 lon1 lat2 lon2 \<longleftrightarrow>
     0 \<le> computed_a err lat1 lon1 lat2 lon2 \<and> computed_a err lat1 lon1 lat2 lon2 \<le> 1"

definition great_circle :: "rounding_error \<Rightarrow> real \<Rightarrow> real \<Rightarrow> real \<Rightarrow> real \<Rightarrow> real" where
  "great_circle err lat1 lon1 lat2 lon2 =
     6371000 * (2 * math_atan2 (sqrt (computed_a err lat1 lon1 lat2 lon2))
                               (sqrt (1 - computed_a err lat1 lon1 lat2 lon2)))"

text \<open>
  The segment from fix \<open>k\<close> to fix \<open>k + 1\<close>: whether \<open>haversine\<close> returns on it, its
  geodesic distance and its elapsed seconds. A track is in order when \<open>haversine\<close>
  returns on each of its segments, a window of fixes when it returns on each pair.
\<close>

definition segment_ok :: "rounding_error \<Rightarrow> point list \<Rightarrow> nat \<Rightarrow> bool" where
  "segment_ok err ps k \<longleftrightarrow>
     in_domain err (fst (ps ! k)) (fst (snd (ps ! k))) (fst (ps ! Suc k)) (fst (snd (ps ! Suc k)))"

definition track_ok :: "rounding_error \<Rightarrow> point list \<Rightarrow> bool" where
  "track_ok err ps \<longleftrightarrow> (\<forall>k < length ps - 1. segment_ok err ps k)"

definition pairs_ok :: "rounding_error \<Rightarrow> point list \<Rightarrow> bool" where
  "pairs_ok err ps \<longleftrightarrow>
     (\<forall>p \<in> set ps. \<forall>q \<in> set ps. in_domain err (fst p) (fst (snd p)) (fst q) (fst (snd q)))"

definition segment_meters :: "rounding_error \<Rightarrow> point list \<Rightarrow> nat \<Rightarrow> real" where
  "segment_meters err ps k =
     great_circle err (fst (ps ! k)) (fst (snd (ps ! k))) (fst (ps ! Suc k)) (fst (snd (ps ! Suc k)))"

definition segment_seconds :: "point list \<Rightarrow> nat \<Rightarrow> real" where
  "segment_seconds ps k = fix_time (ps ! Suc k) - fix_time (ps ! k)"

definition total_meters :: "rounding_error \<Rightarrow> point list \<Rightarrow> nat \<Rightarrow> nat \<Rightarrow> real" where
  "total_meters err ps a b = sum_list (map (segment_meters err ps) [a..<b])"

definition total_seconds :: "point list \<Rightarrow> nat \<Rightarrow> nat \<Rightarrow> real" where
  "total_seconds ps a b = sum_list (map (segment_seconds ps) [a..<b])"

text \<open>
  The fixes counted by a backward scan from \<open>i\<close>, fix \<open>i\<close> included, that stops at
  the first fix earlier than \<open>fix_time (ps ! i) - d\<close>.
\<close>

definition counted_back :: "point list \<Rightarrow> nat \<Rightarrow> real \<Rightarrow> nat" where
  "counted_back ps i d =
     length (takeWhile (\<lambda>p. fix_time (ps ! i) - d \<le> fix_time p) (rev (take (Suc i) ps)))"

text \<open>A segment counts for the pace of a pause when it has positive length and duration.\<close>

definition qualifying :: "rounding_error \<Rightarrow> point list \<Rightarrow> nat \<Rightarrow> bool" where
  "qualifying err ps k \<longleftrightarrow> 0 < segment_meters err ps k \<and> 0 < segment_seconds ps k"

definition segment_pace :: "rounding_error \<Rightarrow> point list \<Rightarrow> nat \<Rightarrow> real" where
  "segment_pace err ps k = segment_seconds ps k / segment_meters err ps k * 1000 / 60"

text \<open>
  The cumulative distance track: entry \<open>k\<close> is the distance summed over the first
  \<open>k\<close> segments.
\<close>

definition cumulative :: "rounding_error \<Rightarrow> point list \<Rightarrow> real list" where
  "cumulative err ps = map (total_meters err ps 0) [0..<length ps]"

text \<open>
  The pause that started at fix \<open>k\<close> (the fix \<open>p0\<close>, at cumulative distance \<open>d0\<close>)
  and ends at fix \<open>i\<close>, with every field written out.
\<close>

definition pause_record ::
  "rounding_error \<Rightarrow> point list \<Rightarrow> real list \<Rightarrow> real \<Rightarrow> point \<Rightarrow> nat \<Rightarrow> real \<Rightarrow> nat \<Rightarrow> pause_info" where
  "pause_record err ps cum t0 p0 k d0 i =
     \<lparr>start = fix_time p0,
      end_time = fix_time (ps ! i),
      duration_seconds = fix_time (ps ! i) - fix_time p0,
      time_from_start_seconds = fix_time p0 - t0,
      start_coords = (fst p0, fst (snd p0)),
      end_coords = (fst (ps ! i), fst (snd (ps ! i))),
      distance_meters = total_meters err ps k i,
      start_index = int k,
      end_index = int i,
      distance_start_km = d0 / 1000,
      distance_end_km = cum ! i / 1000,
      nb_points = int i - int k + 1\<rparr>"

text \<open>The state in which a pause opened at fix \<open>i\<close> and no pause has been recorded.\<close>

definition opened_at :: "point list \<Rightarrow> real list \<Rightarrow> nat \<Rightarrow> scan_state" where
  "opened_at ps cum i =
     initial_state\<lparr>in_pause := True, pause_start := Some (ps ! i),
                    pause_start_index := Some (int i), pause_start_distance := Some (cum ! i)\<rparr>"

text \<open>
  What holds of the scan variables each time the loop reaches index \<open>i\<close>: the
  recorded pauses lie before \<open>i\<close>, one after the other, and an open pause started
  before \<open>i\<close> and after all of them.
\<close>

definition scan_invariant :: "point list \<Rightarrow> real list \<Rightarrow> nat \<Rightarrow> scan_state \<Rightarrow> bool" where
  "scan_invariant ps cum i s \<longleftrightarrow>
     sorted_wrt (\<lambda>p q. end_index p < start_index q) (pauses s)
     \<and> (\<forall>p \<in> set (pauses s). 0 \<le> start_index p \<and> start_index p < end_index p
            \<and> end_index p < int i \<and> nb_points p = end_index p - start_index p + 1)
     \<and> (in_pause s \<longrightarrow>
          (\<exists>k<i. pause_start_index s = Some (int k) \<and> pause_start s = Some (ps ! k)
                 \<and> pause_start_distance s = Some (cum ! k)
                 \<and> (\<forall>p \<in> set (pauses s). end_index p < int k)))"

section \<open>Properties\<close>

subsection \<open>The error plumbing\<close>

lemma bindE_Inr [simp]: "bindE (Inr v) f = f v"
  by (simp add: bindE_def)

lemma bindE_Inl [simp]: "bindE (Inl e) f = Inl e"
  by (simp add: bindE_def)

lemma getitem_nat [simp]: "k < length xs \<Longrightarrow> getitem xs (int k) = Inr (xs ! k)"
  by (simp add: getitem_def)


lemma bindE_eq_Inr: "bindE m f = Inr y \<longleftrightarrow> (\<exists>x. m = Inr x \<and> f x = Inr y)"
  by (cases m) simp_all

lemma bindE_return: "bindE m Inr = m"
  by (cases m) simp_all

lemma getitem_valid: "0 \<le> j \<Longrightarrow> j < int (length xs) \<Longrightarrow> getitem xs j = Inr (xs ! nat j)"
  by (simp add: getitem_def)

lemma getitem_last: "xs \<noteq> [] \<Longrightarrow> getitem xs (- 1) = Inr (last xs)"
  by (cases xs rule: rev_cases) (simp_all add: getitem_def)

subsection \<open>When haversine returns\<close>

lemma half_angle_sin: "(sin (x / 2))\<^sup>2 = (1 - cos x) / (2::real)"
  using cos_double_sin [of "x / 2"] by simp

lemma haversine_a_bounds:
  "0 \<le> haversine_a lat1 lon1 lat2 lon2 \<and> haversine_a lat1 lon1 lat2 lon2 \<le> 1"
proof -
  define x where "x = radians lat1"
  define y where "y = radians lat2"
  define s where "s = (sin ((radians lon2 - radians lon1) / 2))\<^sup>2"
  define u where "u = (sin ((y - x) / 2))\<^sup>2"
  define p where "p = cos x * cos y"
  have a: "haversine_a lat1 lon1 lat2 lon2 = u + p * s"
    by (simp add: haversine_a_def Let_def x_def y_def s_def u_def p_def)
  have s0: "0 \<le> s" by (simp add: s_def)
  have s1: "s \<le> 1" unfolding s_def using abs_sin_le_one [of "(radians lon2 - radians lon1) / 2"]
    by (simp add: abs_square_le_1)
  have u0: "0 \<le> u" by (simp add: u_def)
  have u_eq: "u = (1 - (cos y * cos x + sin y * sin x)) / 2"
    unfolding u_def half_angle_sin cos_diff ..
  have c1: "- 1 \<le> cos (x + y)" and c2: "cos (x + y) \<le> 1" by simp_all
  have sum_eq: "cos (x + y) = cos x * cos y - sin x * sin y" by (rule cos_add)
  have lo: "0 \<le> u + p" using c1 unfolding u_eq p_def sum_eq by (simp add: field_simps)
  have hi: "u + p \<le> 1" using c2 unfolding u_eq p_def sum_eq by (simp add: field_simps)
  have u1: "u \<le> 1" unfolding u_def using abs_sin_le_one [of "(y - x) / 2"]
    by (simp add: abs_square_le_1)
  show ?thesis
  proof (cases "0 \<le> p")
    case True
    have "0 \<le> p * s" using True s0 by simp
    moreover have "p * s \<le> p * 1" by (rule mult_left_mono [OF s1 True])
    ultimately show ?thesis using a u0 hi by simp
  next
    case False
    then have p: "p \<le> 0" by simp
    have "p * s \<le> 0" using p s0 by (simp add: mult_nonpos_nonneg)
    moreover have "p * 1 \<le> p * s" using mult_left_mono_neg [OF s1 p] .
    ultimately show ?thesis using a u1 lo by simp
  qed
qed

lemma haversine_cases:
  "haversine err lat1 lon1 lat2 lon2 =
     (if in_domain err lat1 lon1 lat2 lon2 then Inr (great_circle err lat1 lon1 lat2 lon2)
      else Inl ValueError)"
  by (auto simp: haversine_def in_domain_def great_circle_def computed_a_def math_sqrt_def Let_def)

lemma in_domain_no_rounding: "in_domain no_rounding lat1 lon1 lat2 lon2"
  using haversine_a_bounds [of lat1 lon1 lat2 lon2]
  by (simp add: in_domain_def computed_a_def no_rounding_def)

lemma haversine_a_same: "haversine_a lat lon lat lon = 0"
  by (simp add: haversine_a_def)

lemma sin_half_diff_swap: "sin ((b - a) / 2) = - sin ((a - b) / (2::real))"
proof -
  have "(b - a) / 2 = - ((a - b) / 2)" by (simp add: minus_divide_left)
  then show ?thesis by (simp only: sin_minus)
qed

lemma haversine_a_sym: "haversine_a lat1 lon1 lat2 lon2 = haversine_a lat2 lon2 lat1 lon1"
  by (simp add: haversine_a_def Let_def sin_half_diff_swap [of "radians lat1" "radians lat2"]
      sin_half_diff_swap [of "radians lon1" "radians lon2"] mult.commute)

lemma haversine_self:
  assumes "err lat lon lat lon = 0"
  shows "haversine err lat lon lat lon = Inr 0"
  using assms
  by (simp add: haversine_cases in_domain_def computed_a_def great_circle_def haversine_a_same
      math_atan2_def)

lemma haversine_symmetric:
  assumes "err lat1 lon1 lat2 lon2 = err lat2 lon2 lat1 lon1"
  shows "haversine err lat1 lon1 lat2 lon2 = haversine err lat2 lon2 lat1 lon1"
  using assms
  by (simp add: haversine_cases in_domain_def computed_a_def great_circle_def
      haversine_a_sym [of lat1 lon1 lat2 lon2])

lemma great_circle_nonneg:
  assumes "in_domain err lat1 lon1 lat2 lon2"
  shows "0 \<le> great_circle err lat1 lon1 lat2 lon2"
proof -
  define a where "a = computed_a err lat1 lon1 lat2 lon2"
  have b: "0 \<le> a" "a \<le> 1" using assms by (simp_all add: a_def in_domain_def)
  have "0 \<le> math_atan2 (sqrt a) (sqrt (1 - a))"
  proof (cases "a = 1")
    case True
    then show ?thesis by (simp add: math_atan2_def)
  next
    case False
    then have "0 < sqrt (1 - a)" using b by simp
    moreover have "0 \<le> sqrt a / sqrt (1 - a)" using b by simp
    ultimately show ?thesis by (simp add: math_atan2_def arctan_monotone' [of 0, simplified])
  qed
  then show ?thesis by (simp add: great_circle_def a_def)
qed

text \<open>
  Two pairs of points for concrete tracks. From (0, 0) to (0, 180) the term is
  exactly 1, also in double precision, and the distance is half the equator. From
  (8, 0) to (-8, 180) the real value of the term is 1 as well, so any rounding
  upward leaves the domain of the square root.
\<close>

lemma haversine_a_half_turn: "haversine_a 0 0 0 180 = 1"
  by (simp add: haversine_a_def radians_def)

lemma half_turn:
  assumes "err 0 0 0 180 = 0"
  shows "in_domain err 0 0 0 180" and "great_circle err 0 0 0 180 = 6371000 * pi"
  using assms
  by (simp_all add: in_domain_def computed_a_def great_circle_def haversine_a_half_turn
      math_atan2_def)

lemma haversine_a_antipodal: "haversine_a 8 0 (- 8) 180 = 1"
proof -
  have "(radians (- 8) - radians 8) / 2 = - radians 8" by (simp add: radians_def)
  then have s: "(sin ((radians (- 8) - radians 8) / 2))\<^sup>2 = (sin (radians 8))\<^sup>2"
    by (simp only: sin_minus power2_minus)
  have c: "cos (radians (- 8)) = cos (radians 8)"
    using cos_minus [of "radians 8"] by (simp add: radians_def)
  have h: "sin ((radians 180 - radians 0) / 2) = 1" by (simp add: radians_def)
  have "haversine_a 8 0 (- 8) 180
          = (sin (radians 8))\<^sup>2 + cos (radians 8) * cos (radians 8) * 1\<^sup>2"
    unfolding haversine_a_def Let_def s c h ..
  then show ?thesis by (simp add: power2_eq_square [symmetric])
qed

lemma antipodal_out_of_domain:
  assumes "0 < err 8 0 (- 8) 180"
  shows "\<not> in_domain err 8 0 (- 8) 180"
  using assms by (simp add: in_domain_def computed_a_def haversine_a_antipodal)

text \<open>
  C8. The distance from a point to itself is 0 and the distance is symmetric, where
  the rounding error is 0 on equal points and symmetric; but \<open>haversine\<close> is not
  total: from (8, 0) to (-8, 180) the term \<open>a\<close> is 1 in the reals, the doubles give
  1 + 2^-52, and the square root of \<open>1 - a\<close> raises ValueError.
\<close>

theorem haversine_antipodal_raises:
  assumes "0 < err 8 0 (- 8) 180"
  shows "haversine err 8 0 (- 8) 180 = Inl ValueError"
  using assms antipodal_out_of_domain [of err] by (simp add: haversine_cases)

theorem haversine_antipodal_raises_witness:
  "0 < (\<lambda>lat1 lon1 lat2 lon2. 1 / 2 ^ 52 :: real) 8 0 (- 8) 180
   \<and> haversine (\<lambda>lat1 lon1 lat2 lon2. 1 / 2 ^ 52) 8 0 (- 8) 180 = Inl ValueError"
  using haversine_antipodal_raises [of "\<lambda>lat1 lon1 lat2 lon2. 1 / 2 ^ 52"] by simp

subsection \<open>Ranges\<close>

lemma py_range_nat: "py_range (int a) (int b) = map int [a..<b]"
proof (induction b)
  case 0
  then show ?case by (simp add: py_range_def)
next
  case (Suc b)
  show ?case
  proof (cases "a \<le> b")
    case True
    then have "[int a..int (Suc b) - 1] = [int a..int b - 1] @ [int b]"
      using upto_rec2 [of "int a" "int b"] by simp
    then show ?thesis using Suc True by (simp add: py_range_def)
  next
    case False
    then show ?thesis by (simp add: py_range_def)
  qed
qed

lemma py_range_down_nat: "py_range_down (int i) = map int (rev [0..<Suc i])"
proof -
  have "[0..int i] = py_range (int 0) (int (Suc i))" by (simp add: py_range_def)
  then show ?thesis unfolding py_range_down_def by (simp only: py_range_nat rev_map)
qed

subsection \<open>The density query\<close>

lemma density_loop_count:
  "\<forall>j \<in> set js. 0 \<le> j \<and> j < int (length ps) \<Longrightarrow>
   density_loop ps st js nb =
     Inr (nb + int (length (takeWhile (\<lambda>j. st \<le> fix_time (ps ! nat j)) js)))"
proof (induction js arbitrary: nb)
  case Nil
  then show ?case by simp
next
  case (Cons j js)
  then have "0 \<le> j" "j < int (length ps)" by simp_all
  then have g: "getitem ps j = Inr (ps ! nat j)" by (simp add: getitem_def)
  have IH: "density_loop ps st js nb' =
     Inr (nb' + int (length (takeWhile (\<lambda>j. st \<le> fix_time (ps ! nat j)) js)))" for nb'
    using Cons by simp
  show ?case by (simp add: g IH case_prod_beta fix_time_def)
qed

lemma take_as_map: "n \<le> length xs \<Longrightarrow> take n xs = map ((!) xs) [0..<n]"
proof -
  assume n: "n \<le> length xs"
  have "take n xs = take n (map ((!) xs) [0..<length xs])" by (simp add: map_nth)
  also have "\<dots> = map ((!) xs) (take n [0..<length xs])" by (rule take_map)
  also have "take n [0..<length xs] = [0..<n]" using n by simp
  finally show ?thesis .
qed

lemma counted_back_indices:
  assumes "i < length ps"
  shows "counted_back ps i d =
           length (takeWhile (\<lambda>k. fix_time (ps ! i) - d \<le> fix_time (ps ! k)) (rev [0..<Suc i]))"
proof -
  have "rev (take (Suc i) ps) = map ((!) ps) (rev [0..<Suc i])"
    using assms take_as_map [of "Suc i" ps] by (simp add: rev_map)
  then show ?thesis unfolding counted_back_def by (simp only: takeWhile_map length_map comp_def)
qed

lemma counted_back_le: "counted_back ps i d \<le> Suc i"
proof -
  have "counted_back ps i d \<le> length (rev (take (Suc i) ps))"
    unfolding counted_back_def by (rule length_takeWhile_le)
  then show ?thesis by simp
qed

lemma density_loop_range:
  assumes "i < length ps"
  shows "density_loop ps (fix_time (ps ! i) - d) (py_range_down (int i)) 0
           = Inr (int (counted_back ps i d))"
proof -
  have "\<forall>j \<in> set (py_range_down (int i)). 0 \<le> j \<and> j < int (length ps)"
    using assms by (auto simp: py_range_down_def)
  from density_loop_count [OF this, of "fix_time (ps ! i) - d" 0]
  show ?thesis
    by (simp add: py_range_down_nat counted_back_indices [OF assms] takeWhile_map comp_def del: upt_Suc)
qed

lemma density_query_value:
  assumes "i < length ps"
  shows "calculate_point_density_last_seconds ps (int i) d =
           Inr (if i = 0 \<or> counted_back ps i d < 2
                   \<or> fix_time (ps ! i) - fix_time (ps ! (Suc i - counted_back ps i d)) = 0
                then None
                else Some (real (counted_back ps i d)
                           / (fix_time (ps ! i) - fix_time (ps ! (Suc i - counted_back ps i d)))))"
proof (cases "i = 0")
  case True
  then show ?thesis by (simp add: calculate_point_density_last_seconds_def)
next
  case False
  define c where "c = counted_back ps i d"
  have c: "c \<le> Suc i" unfolding c_def by (rule counted_back_le)
  have idx: "int i - int c + 1 = int (Suc i - c)" using c by simp
  have lt: "Suc i - c < length ps" if "2 \<le> c" using that assms by simp
  have loop: "density_loop ps (snd (snd (ps ! i)) - d) (py_range_down (int i)) 0 = Inr (int c)"
    using density_loop_range [OF assms, of d] by (simp add: c_def fix_time_def)
  show ?thesis
    using False assms lt
    by (simp add: calculate_point_density_last_seconds_def case_prod_beta Let_def loop idx
        truediv_def c_def [symmetric] fix_time_def)
qed

text \<open>
  C6. The density query counts fixes backward from \<open>i\<close> (fix \<open>i\<close> included) up to the
  first fix earlier than the time of fix \<open>i\<close> minus the window. It returns "no data"
  at \<open>i = 0\<close>, when fewer than 2 fixes are counted, or when the earliest counted fix
  has the time of fix \<open>i\<close>; otherwise the count divided by the elapsed seconds.
\<close>

theorem sample_density_query:
  assumes "i < length ps"
  shows "calculate_point_density_last_seconds ps (int i) d =
           Inr (if i = 0 \<or> counted_back ps i d < 2
                   \<or> fix_time (ps ! i) - fix_time (ps ! (Suc i - counted_back ps i d)) = 0
                then None
                else Some (real (counted_back ps i d)
                           / (fix_time (ps ! i) - fix_time (ps ! (Suc i - counted_back ps i d)))))"
  using assms by (rule density_query_value)

theorem sample_density_query_witness:
  "(2::nat) < length [(0, 0, 0), (0, 0, 10), (0, 0, 20 :: real)]
   \<and> calculate_point_density_last_seconds [(0, 0, 0), (0, 0, 10), (0, 0, 20)] 2 30
       = Inr (Some (3 / 20))"
  using sample_density_query [of 2 "[(0, 0, 0), (0, 0, 10), (0, 0, 20)]" 30]
  by (simp add: counted_back_def fix_time_def take_Suc_conv_app_nth numeral_2_eq_2)

subsection \<open>The pace query\<close>

lemma haversine_segment:
  "haversine err (fst (ps ! k)) (fst (snd (ps ! k))) (fst (ps ! Suc k)) (fst (snd (ps ! Suc k)))
     = (if segment_ok err ps k then Inr (segment_meters err ps k) else Inl ValueError)"
  by (simp add: haversine_cases segment_ok_def segment_meters_def)

lemma pace_loop_step:
  assumes "0 \<le> j" and "j + 1 < int (length ps)"
  shows "pace_loop err ps (j # js) td tt =
           (if segment_ok err ps (nat j)
            then pace_loop err ps js (td + segment_meters err ps (nat j))
                   (tt + segment_seconds ps (nat j))
            else Inl ValueError)"
proof -
  have g: "getitem ps j = Inr (ps ! nat j)" "getitem ps (j + 1) = Inr (ps ! Suc (nat j))"
    using assms by (simp_all add: getitem_def nat_add_distrib)
  show ?thesis
    by (simp add: g case_prod_beta haversine_segment segment_seconds_def fix_time_def)
qed

lemma pace_loop_sums:
  "\<forall>j \<in> set js. 0 \<le> j \<and> j + 1 < int (length ps) \<and> segment_ok err ps (nat j) \<Longrightarrow>
   pace_loop err ps js td tt =
     Inr (td + sum_list (map (\<lambda>j. segment_meters err ps (nat j)) js),
          tt + sum_list (map (\<lambda>j. segment_seconds ps (nat j)) js))"
proof (induction js arbitrary: td tt)
  case Nil
  then show ?case by simp
next
  case (Cons j js)
  then have j: "0 \<le> j" "j + 1 < int (length ps)" and ok: "segment_ok err ps (nat j)"
    by simp_all
  have IH: "pace_loop err ps js td' tt' =
     Inr (td' + sum_list (map (\<lambda>j. segment_meters err ps (nat j)) js),
          tt' + sum_list (map (\<lambda>j. segment_seconds ps (nat j)) js))" for td' tt'
    using Cons by simp
  show ?case
    by (simp add: pace_loop_step [OF j] ok IH del: pace_loop.simps)
qed

lemma pace_loop_range:
  assumes "b < length ps" and "\<forall>k \<in> {a..<b}. segment_ok err ps k"
  shows "pace_loop err ps (py_range (int a) (int b)) 0 0
           = Inr (total_meters err ps a b, total_seconds ps a b)"
proof -
  have "\<forall>j \<in> set (py_range (int a) (int b)).
          0 \<le> j \<and> j + 1 < int (length ps) \<and> segment_ok err ps (nat j)"
    using assms by (auto simp: py_range_nat)
  from pace_loop_sums [OF this, of 0 0] show ?thesis
    by (simp add: py_range_nat total_meters_def total_seconds_def comp_def)
qed

lemma average_pace_value:
  assumes "i < length ps" and "\<forall>k \<in> {nat (max 0 (int i - n))..<i}. segment_ok err ps k"
  shows "calculate_average_pace_last_points err ps (int i) n =
           Inr (if max 0 (int i - n) \<ge> int i
                   \<or> total_meters err ps (nat (max 0 (int i - n))) i = 0
                   \<or> total_seconds ps (nat (max 0 (int i - n))) i = 0
                then None
                else Some (total_seconds ps (nat (max 0 (int i - n))) i
                           / total_meters err ps (nat (max 0 (int i - n))) i * 1000 / 60))"
proof -
  define a where "a = nat (max 0 (int i - n))"
  have start: "(if int i < n then 0 else int i - n) = int a" by (simp add: a_def max_def)
  have loop: "pace_loop err ps (py_range (int a) (int i)) 0 0
                = Inr (total_meters err ps a i, total_seconds ps a i)"
    using assms unfolding a_def by (rule pace_loop_range)
  have m: "max 0 (int i - n) = int a" by (simp add: a_def)
  have "calculate_average_pace_last_points err ps (int i) n =
           Inr (if int a \<ge> int i \<or> total_meters err ps a i = 0 \<or> total_seconds ps a i = 0
                then None
                else Some (total_seconds ps a i / total_meters err ps a i * 1000 / 60))"
    unfolding calculate_average_pace_last_points_def start Let_def
    by (simp add: loop truediv_def)
  then show ?thesis unfolding m a_def [symmetric] by simp
qed

lemma track_ok_segment: "track_ok err ps \<Longrightarrow> Suc k < length ps \<Longrightarrow> segment_ok err ps k"
  by (simp add: track_ok_def)

lemma pace_query_total:
  assumes "i < length ps" and "track_ok err ps"
  shows "\<exists>r. calculate_average_pace_last_points err ps (int i) n = Inr r"
proof -
  have "\<forall>k \<in> {nat (max 0 (int i - n))..<i}. segment_ok err ps k"
    using assms by (auto intro: track_ok_segment)
  from average_pace_value [OF assms(1) this] show ?thesis by blast
qed

text \<open>
  C5. Where \<open>haversine\<close> returns on the segments of the window, the pace query is
  as described: it starts at \<open>max 0 (i - n)\<close> and gives "no data" exactly when that
  start is not below \<open>i\<close>, or the summed distance is 0, or the summed time is 0, and
  otherwise total seconds / total meters * 1000 / 60 (\<open>average_pace_value\<close>). But
  on the sorted two-fix track from (8, 0) to (-8, 180), at index 1 with one point,
  the only segment makes \<open>haversine\<close> raise, and the query raises ValueError where
  the description promises a pace.
\<close>

theorem average_pace_antipodal_raises:
  assumes "0 < err 8 0 (- 8) 180"
  shows "calculate_average_pace_last_points err [(8, 0, 0), (- 8, 180, 60)] 1 1 = Inl ValueError"
  using assms antipodal_out_of_domain [of err]
  by (simp add: calculate_average_pace_last_points_def py_range_def getitem_def haversine_cases)

theorem average_pace_antipodal_raises_witness:
  "0 < (\<lambda>lat1 lon1 lat2 lon2. 1 / 2 ^ 52 :: real) 8 0 (- 8) 180
   \<and> calculate_average_pace_last_points (\<lambda>lat1 lon1 lat2 lon2. 1 / 2 ^ 52)
       [(8, 0, 0), (- 8, 180, 60)] 1 1 = Inl ValueError"
  using average_pace_antipodal_raises [of "\<lambda>lat1 lon1 lat2 lon2. 1 / 2 ^ 52"] by simp

subsection \<open>Average pace during a pause\<close>

lemma instantaneous_loop_step:
  assumes "0 \<le> j" and "j + 1 < int (length ps)"
  shows "instantaneous_loop err ps (j # js) acc =
           (if \<not> segment_ok err ps (nat j) then Inl ValueError
            else if qualifying err ps (nat j)
            then instantaneous_loop err ps js (acc @ [segment_pace err ps (nat j)])
            else instantaneous_loop err ps js acc)"
proof (cases "segment_ok err ps (nat j)")
  case False
  have g: "getitem ps j = Inr (ps ! nat j)" "getitem ps (j + 1) = Inr (ps ! Suc (nat j))"
    using assms by (simp_all add: getitem_def nat_add_distrib)
  show ?thesis using False by (simp add: g case_prod_beta haversine_segment)
next
  case True
  have g: "getitem ps j = Inr (ps ! nat j)" "getitem ps (j + 1) = Inr (ps ! Suc (nat j))"
    using assms by (simp_all add: getitem_def nat_add_distrib)
  have h: "haversine err (fst (ps ! nat j)) (fst (snd (ps ! nat j)))
             (fst (ps ! Suc (nat j))) (fst (snd (ps ! Suc (nat j))))
           = Inr (segment_meters err ps (nat j))"
    using True by (simp add: haversine_segment)
  have s: "snd (snd (ps ! Suc (nat j))) - snd (snd (ps ! nat j)) = segment_seconds ps (nat j)"
    by (simp add: segment_seconds_def fix_time_def)
  have "instantaneous_loop err ps (j # js) acc =
          (if 0 < segment_meters err ps (nat j) \<and> 0 < segment_seconds ps (nat j)
           then bindE (truediv (segment_seconds ps (nat j)) (segment_meters err ps (nat j)))
                  (\<lambda>q. instantaneous_loop err ps js (acc @ [q * 1000 / 60]))
           else instantaneous_loop err ps js acc)"
    by (simp only: instantaneous_loop.simps g h bindE_Inr case_prod_beta s Let_def)
  also have "\<dots> = (if qualifying err ps (nat j)
            then instantaneous_loop err ps js (acc @ [segment_pace err ps (nat j)])
            else instantaneous_loop err ps js acc)"
    by (simp add: qualifying_def segment_pace_def truediv_def mult.commute
        del: instantaneous_loop.simps)
  finally show ?thesis using True by simp
qed

lemma instantaneous_loop_value:
  "\<forall>j \<in> set js. 0 \<le> j \<and> j + 1 < int (length ps) \<and> segment_ok err ps (nat j) \<Longrightarrow>
   instantaneous_loop err ps js acc =
     Inr (acc @ map (\<lambda>j. segment_pace err ps (nat j))
                  (filter (\<lambda>j. qualifying err ps (nat j)) js))"
proof (induction js arbitrary: acc)
  case Nil
  then show ?case by simp
next
  case (Cons j js)
  then have j: "0 \<le> j" "j + 1 < int (length ps)" and ok: "segment_ok err ps (nat j)"
    by simp_all
  have IH: "instantaneous_loop err ps js acc' =
     Inr (acc' @ map (\<lambda>j. segment_pace err ps (nat j))
                   (filter (\<lambda>j. qualifying err ps (nat j)) js))" for acc'
    using Cons by simp
  show ?case
    by (simp add: instantaneous_loop_step [OF j] ok IH del: instantaneous_loop.simps)
qed

lemma instantaneous_loop_range:
  assumes "b < length ps" and "\<forall>k \<in> {a..<b}. segment_ok err ps k"
  shows "instantaneous_loop err ps (py_range (int a) (int b)) [] =
           Inr (map (segment_pace err ps) (filter (qualifying err ps) [a..<b]))"
proof -
  have "\<forall>j \<in> set (py_range (int a) (int b)).
          0 \<le> j \<and> j + 1 < int (length ps) \<and> segment_ok err ps (nat j)"
    using assms by (auto simp: py_range_nat)
  from instantaneous_loop_value [OF this, of "[]"] show ?thesis
    by (simp add: py_range_nat filter_map comp_def)
qed

lemma pause_average_pace_early:
  "ps = [] \<or> e \<le> s \<Longrightarrow> calculate_average_pace_during_pause err ps s e = Inr None"
  by (auto simp: calculate_average_pace_during_pause_def)

lemma pause_average_pace_value:
  assumes "a < b" and "b < length ps" and "\<forall>k \<in> {a..<b}. segment_ok err ps k"
  shows "calculate_average_pace_during_pause err ps (int a) (int b) =
          Inr (if \<exists>k \<in> {a..<b}. 0 < segment_meters err ps k \<and> 0 < segment_seconds ps k
               then Some (sum_list (map (segment_pace err ps) (filter (qualifying err ps) [a..<b]))
                          / real (length (filter (qualifying err ps) [a..<b])))
               else None)"
proof -
  have ne: "ps \<noteq> []" using assms(2) by auto
  have q: "(\<exists>k \<in> {a..<b}. 0 < segment_meters err ps k \<and> 0 < segment_seconds ps k)
             \<longleftrightarrow> filter (qualifying err ps) [a..<b] \<noteq> []"
    by (auto simp: filter_empty_conv qualifying_def)
  show ?thesis
    unfolding q using assms(1,2) ne
    by (simp add: calculate_average_pace_during_pause_def
        instantaneous_loop_range [OF assms(2,3)] truediv_def)
qed

text \<open>
  C10. The average pace of a pause is "no data", without an exception, on an empty
  list or when \<open>start_index \<ge> end_index\<close> (\<open>pause_average_pace_early\<close>), and where
  \<open>haversine\<close> returns on the segments of a valid range it is "no data" exactly when
  no segment has both a positive distance and a positive duration, with no division
  by zero (\<open>pause_average_pace_value\<close>). But \<open>haversine\<close> is called on a segment
  before its distance is tested: on the two-fix track from (8, 0) to (-8, 180),
  range 0 to 1, it raises, and so does the function, where "no data" is promised.
\<close>

theorem pause_average_pace_antipodal_raises:
  assumes "0 < err 8 0 (- 8) 180"
  shows "calculate_average_pace_during_pause err [(8, 0, 0), (- 8, 180, 0)] 0 1 = Inl ValueError"
  using assms antipodal_out_of_domain [of err]
  by (simp add: calculate_average_pace_during_pause_def py_range_def getitem_def haversine_cases)

theorem pause_average_pace_antipodal_raises_witness:
  "0 < (\<lambda>lat1 lon1 lat2 lon2. 1 / 2 ^ 52 :: real) 8 0 (- 8) 180
   \<and> calculate_average_pace_during_pause (\<lambda>lat1 lon1 lat2 lon2. 1 / 2 ^ 52)
       [(8, 0, 0), (- 8, 180, 0)] 0 1 = Inl ValueError"
  using pause_average_pace_antipodal_raises [of "\<lambda>lat1 lon1 lat2 lon2. 1 / 2 ^ 52"] by simp

subsection \<open>When the displacement query returns\<close>

lemma max_inner_total:
  "\<forall>q \<in> set w. in_domain err lat1 lon1 (fst q) (fst (snd q)) \<Longrightarrow>
   \<exists>r. max_inner err lat1 lon1 w m = Inr r"
proof (induction w arbitrary: m)
  case Nil
  then show ?case by simp
next
  case (Cons q w)
  obtain lat lon t where q: "q = (lat, lon, t)" by (cases q) auto
  have "in_domain err lat1 lon1 lat lon" using Cons.prems q by simp
  then show ?case using Cons q by (simp add: haversine_cases)
qed

lemma max_outer_total: "pairs_ok err w \<Longrightarrow> \<exists>r. max_outer err w m = Inr r"
proof (induction w arbitrary: m)
  case Nil
  then show ?case by simp
next
  case (Cons p w)
  obtain lat lon t where p: "p = (lat, lon, t)" by (cases p) auto
  have rest: "pairs_ok err w" using Cons.prems by (simp add: pairs_ok_def)
  have "\<forall>q \<in> set w. in_domain err lat lon (fst q) (fst (snd q))"
    using Cons.prems p by (simp add: pairs_ok_def)
  from max_inner_total [OF this]
  obtain r where "max_inner err lat lon w m = Inr r" by blast
  then show ?case using Cons.IH [OF rest, of r] p by simp
qed

lemma window_loop_total:
  "\<forall>j \<in> set js. 0 \<le> j \<and> j < int (length ps) \<Longrightarrow>
   \<exists>w'. window_loop ps e js w = Inr w' \<and> set w' \<subseteq> set w \<union> set ps"
proof (induction js arbitrary: w)
  case Nil
  then show ?case by simp
next
  case (Cons j js)
  then have j: "0 \<le> j" "j < int (length ps)" by simp_all
  then have g: "getitem ps j = Inr (ps ! nat j)" by (simp add: getitem_def)
  obtain lat lon t where p: "ps ! nat j = (lat, lon, t)" by (cases "ps ! nat j") auto
  have mem: "(lat, lon, t) \<in> set ps" using j p nth_mem [of "nat j" ps] by simp
  have js: "\<forall>j \<in> set js. 0 \<le> j \<and> j < int (length ps)" using Cons.prems by simp
  from Cons.IH [OF js, of "w @ [(lat, lon, t)]"]
  obtain w' where w': "window_loop ps e js (w @ [(lat, lon, t)]) = Inr w'"
      "set w' \<subseteq> set (w @ [(lat, lon, t)]) \<union> set ps" by blast
  have "set w' \<subseteq> set w \<union> set ps" using w'(2) mem by auto
  then show ?case using w'(1) by (auto simp: g p)
qed

lemma max_window_total:
  assumes "i < length ps" and "pairs_ok err ps"
  shows "\<exists>r. calculate_max_distance_window err ps (int i) d = Inr r"
proof -
  have "\<forall>j \<in> set (py_range (int i + 1) (int (length ps))). 0 \<le> j \<and> j < int (length ps)"
    by (auto simp: py_range_def)
  from window_loop_total [OF this]
  obtain w where w: "window_loop ps (snd (snd (ps ! i)) + d)
                    (py_range (int i + 1) (int (length ps))) [ps ! i] = Inr w"
    and sub: "set w \<subseteq> set [ps ! i] \<union> set ps"
    by blast
  have "set w \<subseteq> set ps" using sub assms(1) by auto
  then have "pairs_ok err w" using assms(2) by (auto simp: pairs_ok_def)
  from max_outer_total [OF this, of 0] show ?thesis
    using assms(1) w by (simp add: calculate_max_distance_window_def Let_def)
qed

lemma density_query_total:
  assumes "i < length ps"
  shows "\<exists>r. calculate_point_density_last_seconds ps (int i) d = Inr r"
  using density_query_value [OF assms, of d] by blast

lemma pairs_ok_track: "pairs_ok err ps \<Longrightarrow> track_ok err ps"
  by (simp add: pairs_ok_def track_ok_def segment_ok_def)

subsection \<open>Cumulative distances and the distance of a pause\<close>

lemma pause_distance_loop_step:
  assumes "0 \<le> j" and "j + 1 < int (length ps)"
  shows "pause_distance_loop err ps (j # js) acc =
           (if segment_ok err ps (nat j)
            then pause_distance_loop err ps js (acc + segment_meters err ps (nat j))
            else Inl ValueError)"
proof -
  have g: "getitem ps j = Inr (ps ! nat j)" "getitem ps (j + 1) = Inr (ps ! Suc (nat j))"
    using assms by (simp_all add: getitem_def nat_add_distrib)
  show ?thesis by (simp add: g case_prod_beta haversine_segment)
qed

lemma pause_distance_loop_sums:
  "\<forall>j \<in> set js. 0 \<le> j \<and> j + 1 < int (length ps) \<and> segment_ok err ps (nat j) \<Longrightarrow>
   pause_distance_loop err ps js acc
     = Inr (acc + sum_list (map (\<lambda>j. segment_meters err ps (nat j)) js))"
proof (induction js arbitrary: acc)
  case Nil
  then show ?case by simp
next
  case (Cons j js)
  then have j: "0 \<le> j" "j + 1 < int (length ps)" and ok: "segment_ok err ps (nat j)"
    by simp_all
  have IH: "pause_distance_loop err ps js acc' =
              Inr (acc' + sum_list (map (\<lambda>j. segment_meters err ps (nat j)) js))" for acc'
    using Cons by simp
  show ?case
    by (simp add: pause_distance_loop_step [OF j] ok IH del: pause_distance_loop.simps)
qed

lemma pause_distance_loop_range:
  assumes "b < length ps" and "track_ok err ps"
  shows "pause_distance_loop err ps (py_range (int a) (int b)) 0 = Inr (total_meters err ps a b)"
proof -
  have "\<forall>j \<in> set (py_range (int a) (int b)).
          0 \<le> j \<and> j + 1 < int (length ps) \<and> segment_ok err ps (nat j)"
    using assms by (auto simp: py_range_nat intro: track_ok_segment)
  from pause_distance_loop_sums [OF this, of 0] show ?thesis
    by (simp add: py_range_nat total_meters_def comp_def)
qed

lemma total_meters_head:
  "a < b \<Longrightarrow> total_meters err ps a b = segment_meters err ps a + total_meters err ps (Suc a) b"
  by (simp add: total_meters_def upt_conv_Cons)

lemma cumulative_loop_step:
  assumes "a + 1 < length ps" and "cd \<noteq> []"
  shows "cumulative_loop err ps (int a # js) cd =
           (if segment_ok err ps a
            then cumulative_loop err ps js (cd @ [last cd + segment_meters err ps a])
            else Inl ValueError)"
proof -
  have g: "getitem ps (int a) = Inr (ps ! a)" "getitem ps (int a + 1) = Inr (ps ! Suc a)"
    using assms(1) by (simp_all add: getitem_def nat_add_distrib)
  show ?thesis
    by (simp add: g getitem_last [OF assms(2)] case_prod_beta haversine_segment)
qed

lemma cumulative_loop_range:
  "cd \<noteq> [] \<Longrightarrow> b < length ps \<Longrightarrow>
   cumulative_loop err ps (map int [a..<b]) cd =
     (if \<forall>k \<in> {a..<b}. segment_ok err ps k
      then Inr (cd @ map (\<lambda>k. last cd + total_meters err ps a (Suc k)) [a..<b])
      else Inl ValueError)"
proof (induction "b - a" arbitrary: a cd)
  case 0
  then show ?case by simp
next
  case (Suc n)
  then have ab: "a < b" by simp
  have up: "[a..<b] = a # [Suc a..<b]" using ab by (simp add: upt_conv_Cons)
  have split: "(\<forall>k \<in> {a..<b}. segment_ok err ps k)
                 \<longleftrightarrow> segment_ok err ps a \<and> (\<forall>k \<in> {Suc a..<b}. segment_ok err ps k)"
  proof -
    have "{a..<b} = insert a {Suc a..<b}" using ab by auto
    then show ?thesis by simp
  qed
  show ?case
  proof (cases "segment_ok err ps a")
    case False
    have "cumulative_loop err ps (map int [a..<b]) cd = Inl ValueError"
      unfolding up using cumulative_loop_step [of a ps cd err] ab Suc.prems False by simp
    then show ?thesis using False split by simp
  next
    case True
    define cd' where "cd' = cd @ [last cd + segment_meters err ps a]"
    have ne: "cd' \<noteq> []" by (simp add: cd'_def)
    have n: "n = b - Suc a" using Suc.hyps(2) by simp
    have IH: "cumulative_loop err ps (map int [Suc a..<b]) cd' =
                (if \<forall>k \<in> {Suc a..<b}. segment_ok err ps k
                 then Inr (cd' @ map (\<lambda>k. last cd' + total_meters err ps (Suc a) (Suc k)) [Suc a..<b])
                 else Inl ValueError)"
      using Suc.hyps(1) [OF n ne Suc.prems(2)] .
    have step: "cumulative_loop err ps (map int [a..<b]) cd
                  = cumulative_loop err ps (map int [Suc a..<b]) cd'"
      unfolding up cd'_def using cumulative_loop_step [of a ps cd err] ab Suc.prems True by simp
    have tail: "map (\<lambda>k. last cd' + total_meters err ps (Suc a) (Suc k)) [Suc a..<b]
                  = map (\<lambda>k. last cd + total_meters err ps a (Suc k)) [Suc a..<b]"
    proof (rule map_cong [OF refl])
      fix k assume "k \<in> set [Suc a..<b]"
      then have "a < Suc k" by simp
      from total_meters_head [OF this, of err ps]
      show "last cd' + total_meters err ps (Suc a) (Suc k) = last cd + total_meters err ps a (Suc k)"
        by (simp add: cd'_def)
    qed
    have head: "last cd + total_meters err ps a (Suc a) = last cd + segment_meters err ps a"
      by (simp add: total_meters_def)
    show ?thesis
      unfolding step IH tail split unfolding up using True by (simp add: cd'_def head)
  qed
qed

lemma cumulative_loop_value:
  assumes "1 \<le> length ps"
  shows "cumulative_loop err ps (py_range 0 (int (length ps) - 1)) [0]
           = (if track_ok err ps then Inr (cumulative err ps) else Inl ValueError)"
proof -
  have r: "py_range 0 (int (length ps) - 1) = map int [0..<length ps - 1]"
    using py_range_nat [of 0 "length ps - 1"] assms by (simp add: of_nat_diff)
  have lt: "length ps - 1 < length ps" using assms by simp
  have "[0..<length ps] = 0 # map Suc [0..<length ps - 1]"
    using assms by (metis One_nat_def Suc_pred less_eq_Suc_le map_Suc_upt upt_conv_Cons)
  then have c: "cumulative err ps = 0 # map (\<lambda>k. total_meters err ps 0 (Suc k)) [0..<length ps - 1]"
    by (simp add: cumulative_def total_meters_def comp_def)
  have t: "track_ok err ps \<longleftrightarrow> (\<forall>k \<in> {0..<length ps - 1}. segment_ok err ps k)"
    by (auto simp: track_ok_def)
  show ?thesis
    unfolding r t using cumulative_loop_range [of "[0]" "length ps - 1" ps err 0] lt
    by (simp add: c)
qed

lemma cumulative_loop_returned:
  assumes "1 \<le> length ps"
    and "cumulative_loop err ps (py_range 0 (int (length ps) - 1)) [0] = Inr cum"
  shows "track_ok err ps" and "cum = cumulative err ps"
  using assms(2) unfolding cumulative_loop_value [OF assms(1)]
  by (simp_all split: if_splits)

lemma length_cumulative [simp]: "length (cumulative err ps) = length ps"
  by (simp add: cumulative_def)

lemma nth_cumulative: "i < length ps \<Longrightarrow> cumulative err ps ! i = total_meters err ps 0 i"
  by (simp add: cumulative_def)

subsection \<open>One turn of the scan\<close>

lemma close_pause_value:
  assumes "i < length ps" and "length cum = length ps" and "track_ok err ps"
    and "pause_start s = Some p0" and "pause_start_index s = Some (int k)"
    and "pause_start_distance s = Some d0"
  shows "close_pause err ps cum t0 s (ps ! i) (int i) = Inr (pause_record err ps cum t0 p0 k d0 i)"
  using assms(1,2,4,5,6)
  by (simp add: close_pause_def Let_def not_none_def case_prod_beta
      pause_distance_loop_range [OF assms(1,3)] pause_record_def fix_time_def)

lemma close_pause_at_end_same:
  assumes "ps \<noteq> []"
  shows "close_pause_at_end err ps cum t0 s
           = close_pause err ps cum t0 s (last ps) (int (length ps) - 1)"
  by (simp add: close_pause_at_end_def close_pause_def getitem_last [OF assms] Let_def)

lemma close_pause_at_end_value:
  assumes "1 \<le> length ps" and "length cum = length ps" and "track_ok err ps"
    and "pause_start s = Some p0" and "pause_start_index s = Some (int k)"
    and "pause_start_distance s = Some d0"
  shows "close_pause_at_end err ps cum t0 s
           = Inr (pause_record err ps cum t0 p0 k d0 (length ps - 1))"
proof -
  define e where "e = length ps - 1"
  have ne: "ps \<noteq> []" using assms(1) by auto
  have idx: "int (length ps) - 1 = int e" using assms(1) by (simp add: e_def)
  have lt: "e < length ps" using assms(1) by (simp add: e_def)
  have l: "last ps = ps ! e" unfolding e_def using ne by (rule last_conv_nth)
  have "close_pause_at_end err ps cum t0 s = Inr (pause_record err ps cum t0 p0 k d0 e)"
    unfolding close_pause_at_end_same [OF ne] idx l
    by (rule close_pause_value [OF lt assms(2-6)])
  then show ?thesis by (simp only: e_def)
qed

lemma scan_step_idle:
  assumes "i < length ps" and "length cum = length ps" and "\<not> in_pause s"
    and "calculate_max_distance_window err ps (int i) (time_window cfg) = Inr md"
    and "calculate_average_pace_last_points err ps (int i) (nb_points_pace cfg) = Inr pace"
    and "calculate_point_density_last_seconds ps (int i) (density_window cfg) = Inr dens"
  shows "scan_step err cfg ps cum t0 (int i) s =
           Inr (if md < threshold_start cfg
                   \<and> (pace = None \<or> (\<exists>v. pace = Some v \<and> pace_threshold cfg < v))
                   \<and> (dens = None \<or> (\<exists>v. dens = Some v \<and> v < density_threshold cfg))
                then s\<lparr>in_pause := True, pause_start := Some (ps ! i),
                        pause_start_index := Some (int i),
                        pause_start_distance := Some (cum ! i)\<rparr>
                else s)"
  using assms by (cases pace; cases dens) (simp_all add: scan_step_def Let_def)

lemma scan_step_paused:
  assumes "i < length ps" and "length cum = length ps" and "track_ok err ps" and "in_pause s"
    and "pause_start s = Some p0" and "pause_start_index s = Some (int k)"
    and "pause_start_distance s = Some d0"
    and "calculate_max_distance_window err ps (int i) (time_window_end cfg) = Inr md"
    and "calculate_average_pace_last_points err ps (int i) (nb_points_pace_end cfg) = Inr pace"
  shows "scan_step err cfg ps cum t0 (int i) s =
           Inr (if threshold_end cfg < md \<and> (\<exists>v. pace = Some v \<and> v < pace_threshold_end cfg)
                then s\<lparr>pauses := pauses s @ [pause_record err ps cum t0 p0 k d0 i],
                        in_pause := False, pause_start := None,
                        pause_start_index := None, pause_start_distance := None\<rparr>
                else s)"
  using assms(1,2,4,8,9)
  by (cases pace) (simp_all add: scan_step_def Let_def close_pause_value [OF assms(1,2,3,5,6,7)])

lemma scan_step_queries:
  assumes "i < length ps" and "scan_step err cfg ps cum t0 (int i) s = Inr s'"
  shows "\<not> in_pause s \<Longrightarrow>
           \<exists>md pace dens.
             calculate_max_distance_window err ps (int i) (time_window cfg) = Inr md
             \<and> calculate_average_pace_last_points err ps (int i) (nb_points_pace cfg) = Inr pace
             \<and> calculate_point_density_last_seconds ps (int i) (density_window cfg) = Inr dens"
    and "in_pause s \<Longrightarrow>
           \<exists>md pace.
             calculate_max_distance_window err ps (int i) (time_window_end cfg) = Inr md
             \<and> calculate_average_pace_last_points err ps (int i) (nb_points_pace_end cfg) = Inr pace"
  using assms by (auto simp: scan_step_def bindE_eq_Inr)

lemma scan_step_invariant:
  assumes i: "i < length ps" and c: "length cum = length ps" and ok: "track_ok err ps"
    and inv: "scan_invariant ps cum i s"
    and step: "scan_step err cfg ps cum t0 (int i) s = Inr s'"
  shows "scan_invariant ps cum (Suc i) s'"
proof (cases "in_pause s")
  case False
  from scan_step_queries(1) [OF i step False]
  obtain md pace dens where
    md: "calculate_max_distance_window err ps (int i) (time_window cfg) = Inr md"
    and pc: "calculate_average_pace_last_points err ps (int i) (nb_points_pace cfg) = Inr pace"
    and dn: "calculate_point_density_last_seconds ps (int i) (density_window cfg) = Inr dens"
    by blast
  have keep: "scan_invariant ps cum (Suc i) s"
    using inv False by (auto simp: scan_invariant_def)
  have open_one: "scan_invariant ps cum (Suc i)
               (s\<lparr>in_pause := True, pause_start := Some (ps ! i),
                  pause_start_index := Some (int i), pause_start_distance := Some (cum ! i)\<rparr>)"
    using inv False by (auto simp: scan_invariant_def)
  show ?thesis
    using step unfolding scan_step_idle [OF i c False md pc dn] using keep open_one
    by (auto split: if_splits)
next
  case True
  then obtain k where k: "k < i" "pause_start_index s = Some (int k)" "pause_start s = Some (ps ! k)"
      "pause_start_distance s = Some (cum ! k)" "\<forall>p \<in> set (pauses s). end_index p < int k"
    using inv by (auto simp: scan_invariant_def)
  from scan_step_queries(2) [OF i step True]
  obtain md pace where
    md: "calculate_max_distance_window err ps (int i) (time_window_end cfg) = Inr md"
    and pc: "calculate_average_pace_last_points err ps (int i) (nb_points_pace_end cfg) = Inr pace"
    by blast
  have keep: "scan_invariant ps cum (Suc i) s"
    using inv True by (auto simp: scan_invariant_def intro: less_SucI)
  have closed: "scan_invariant ps cum (Suc i)
               (s\<lparr>pauses := pauses s @ [pause_record err ps cum t0 (ps ! k) k (cum ! k) i],
                  in_pause := False, pause_start := None,
                  pause_start_index := None, pause_start_distance := None\<rparr>)"
    using inv k by (auto simp: scan_invariant_def sorted_wrt_append pause_record_def)
  show ?thesis
    using step unfolding scan_step_paused [OF i c ok True k(3) k(2) k(4) md pc]
    using keep closed by (auto split: if_splits)
qed

lemma scan_step_total:
  assumes i: "i < length ps" and c: "length cum = length ps" and ok: "pairs_ok err ps"
    and inv: "scan_invariant ps cum i s"
  shows "\<exists>s'. scan_step err cfg ps cum t0 (int i) s = Inr s'"
proof (cases "in_pause s")
  case False
  obtain md where md: "calculate_max_distance_window err ps (int i) (time_window cfg) = Inr md"
    using max_window_total [OF i ok] by blast
  obtain pace where pc: "calculate_average_pace_last_points err ps (int i) (nb_points_pace cfg) = Inr pace"
    using pace_query_total [OF i pairs_ok_track [OF ok]] by blast
  obtain dens where dn: "calculate_point_density_last_seconds ps (int i) (density_window cfg) = Inr dens"
    using density_query_total [OF i] by blast
  show ?thesis unfolding scan_step_idle [OF i c False md pc dn] by blast
next
  case True
  then obtain k where k: "pause_start_index s = Some (int k)" "pause_start s = Some (ps ! k)"
      "pause_start_distance s = Some (cum ! k)"
    using inv by (auto simp: scan_invariant_def)
  obtain md where md: "calculate_max_distance_window err ps (int i) (time_window_end cfg) = Inr md"
    using max_window_total [OF i ok] by blast
  obtain pace where pc: "calculate_average_pace_last_points err ps (int i) (nb_points_pace_end cfg) = Inr pace"
    using pace_query_total [OF i pairs_ok_track [OF ok]] by blast
  show ?thesis
    unfolding scan_step_paused [OF i c pairs_ok_track [OF ok] True k(2) k(1) k(3) md pc] by blast
qed

subsection \<open>The whole scan\<close>

lemma scan_loop_invariant:
  assumes c: "length cum = length ps" and ok: "track_ok err ps"
  shows "i \<le> length ps \<Longrightarrow> scan_invariant ps cum i s \<Longrightarrow>
         scan_loop err cfg ps cum t0 (int i) s = Inr s' \<Longrightarrow>
         scan_invariant ps cum (length ps) s'"
proof (induction "length ps - i" arbitrary: i s)
  case 0
  then have "i = length ps" by simp
  then show ?case using "0.prems" by (subst (asm) scan_loop.simps) simp
next
  case (Suc n)
  then have i: "i < length ps" by simp
  have "bindE (scan_step err cfg ps cum t0 (int i) s)
          (\<lambda>s1. scan_loop err cfg ps cum t0 (int i + 1) s1) = Inr s'"
    using Suc.prems(3) i by (subst (asm) scan_loop.simps) simp
  then obtain s1 where s1: "scan_step err cfg ps cum t0 (int i) s = Inr s1"
      "scan_loop err cfg ps cum t0 (int i + 1) s1 = Inr s'"
    by (auto simp: bindE_eq_Inr)
  have inv1: "scan_invariant ps cum (Suc i) s1"
    using scan_step_invariant [OF i c ok Suc.prems(2) s1(1)] .
  have n: "n = length ps - Suc i" using Suc.hyps(2) by simp
  have l: "scan_loop err cfg ps cum t0 (int (Suc i)) s1 = Inr s'"
    using s1(2) by (simp add: add.commute)
  show ?case using Suc.hyps(1) [OF n _ inv1 l] i by simp
qed

lemma scan_loop_total:
  assumes c: "length cum = length ps" and ok: "pairs_ok err ps"
  shows "i \<le> length ps \<Longrightarrow> scan_invariant ps cum i s \<Longrightarrow>
         \<exists>s'. scan_loop err cfg ps cum t0 (int i) s = Inr s'"
proof (induction "length ps - i" arbitrary: i s)
  case 0
  then have "i = length ps" by simp
  then show ?case by (subst scan_loop.simps) simp
next
  case (Suc n)
  then have i: "i < length ps" by simp
  obtain s1 where s1: "scan_step err cfg ps cum t0 (int i) s = Inr s1"
    using scan_step_total [OF i c ok Suc.prems(2)] by blast
  have inv1: "scan_invariant ps cum (Suc i) s1"
    using scan_step_invariant [OF i c pairs_ok_track [OF ok] Suc.prems(2) s1] .
  have n: "n = length ps - Suc i" using Suc.hyps(2) by simp
  from Suc.hyps(1) [OF n _ inv1] i
  obtain s' where s': "scan_loop err cfg ps cum t0 (int (Suc i)) s1 = Inr s'" by auto
  have "scan_loop err cfg ps cum t0 (int i) s = scan_loop err cfg ps cum t0 (int i + 1) s1"
    using i s1 by (subst scan_loop.simps) simp
  then show ?case using s' by (simp add: add.commute)
qed

lemma initial_invariant: "scan_invariant ps cum 0 initial_state"
  by (simp add: scan_invariant_def initial_state_def)

lemma detect_pauses_unfold:
  assumes "2 \<le> length ps"
  shows "detect_pauses err ps cfg =
           bindE (cumulative_loop err ps (py_range 0 (int (length ps) - 1)) [0]) (\<lambda>cum.
           bindE (scan_loop err cfg ps cum (fix_time (ps ! 0)) 0 initial_state)
             (\<lambda>s. if in_pause s
                  then bindE (close_pause_at_end err ps cum (fix_time (ps ! 0)) s)
                         (\<lambda>info. Inr (pauses s @ [info], ps))
                  else Inr (pauses s, ps)))"
proof -
  have g: "getitem ps 0 = Inr (ps ! 0)" using assms by (auto simp: getitem_def)
  show ?thesis unfolding detect_pauses_def fix_time_def using assms
    by (simp add: g case_prod_beta)
qed

lemma detect_pauses_short: "length ps < 2 \<Longrightarrow> detect_pauses err ps cfg = Inr ([], ps)"
  by (simp add: detect_pauses_def)

subsection \<open>The decisions of the scan\<close>

lemma cumulative_returned_length:
  assumes "1 \<le> length ps"
    and "cumulative_loop err ps (py_range 0 (int (length ps) - 1)) [0] = Inr cum"
  shows "length cum = length ps"
  using cumulative_loop_returned(2) [OF assms] by simp

text \<open>
  C1. At an index \<open>i\<close> that the scan reaches with no pause open, the three start
  queries having returned \<open>md\<close>, \<open>pace\<close> and \<open>dens\<close>, the step opens a pause exactly
  when all three criteria hold: \<open>md\<close> is below \<open>threshold_start\<close>, the pace is
  "no data" or above \<open>pace_threshold\<close>, and the density is "no data" or below
  \<open>density_threshold\<close>. It then records fix \<open>i\<close>, the index \<open>i\<close> and entry \<open>i\<close> of the
  cumulative distances, which is the distance summed over the first \<open>i\<close> segments;
  otherwise the state is unchanged.
\<close>

theorem start_transition:
  assumes "i < length ps"
    and "cumulative_loop err ps (py_range 0 (int (length ps) - 1)) [0] = Inr cum"
    and "\<not> in_pause s"
    and "calculate_max_distance_window err ps (int i) (time_window cfg) = Inr md"
    and "calculate_average_pace_last_points err ps (int i) (nb_points_pace cfg) = Inr pace"
    and "calculate_point_density_last_seconds ps (int i) (density_window cfg) = Inr dens"
  shows "scan_step err cfg ps cum t0 (int i) s =
           Inr (if md < threshold_start cfg
                   \<and> (pace = None \<or> (\<exists>v. pace = Some v \<and> pace_threshold cfg < v))
                   \<and> (dens = None \<or> (\<exists>v. dens = Some v \<and> v < density_threshold cfg))
                then s\<lparr>in_pause := True, pause_start := Some (ps ! i),
                        pause_start_index := Some (int i),
                        pause_start_distance := Some (cum ! i)\<rparr>
                else s)
         \<and> cum ! i = total_meters err ps 0 i"
proof -
  have one: "1 \<le> length ps" using assms(1) by simp
  have c: "length cum = length ps" using cumulative_returned_length [OF one assms(2)] .
  have "cum ! i = total_meters err ps 0 i"
    using cumulative_loop_returned(2) [OF one assms(2)] nth_cumulative [OF assms(1)] by simp
  then show ?thesis using scan_step_idle [OF assms(1) c assms(3-6)] by simp
qed

text \<open>
  C2. At an index \<open>i\<close> that the scan reaches with a pause open, the two end queries
  having returned \<open>md\<close> and \<open>pace\<close>, the step closes the pause exactly when \<open>md\<close> is
  above \<open>threshold_end\<close> and the pace is a value below \<open>pace_threshold_end\<close>; a pace
  of "no data" never closes it. On closing, the record of the pause, which ends at
  fix \<open>i\<close>, is appended to the list and no pause is open any more.
\<close>

theorem end_transition:
  assumes "i < length ps"
    and "cumulative_loop err ps (py_range 0 (int (length ps) - 1)) [0] = Inr cum"
    and "in_pause s" and "pause_start s = Some p0"
    and "pause_start_index s = Some (int k)" and "pause_start_distance s = Some d0"
    and "calculate_max_distance_window err ps (int i) (time_window_end cfg) = Inr md"
    and "calculate_average_pace_last_points err ps (int i) (nb_points_pace_end cfg) = Inr pace"
  shows "scan_step err cfg ps cum t0 (int i) s =
           Inr (if threshold_end cfg < md \<and> (\<exists>v. pace = Some v \<and> v < pace_threshold_end cfg)
                then s\<lparr>pauses := pauses s @ [pause_record err ps cum t0 p0 k d0 i],
                        in_pause := False, pause_start := None,
                        pause_start_index := None, pause_start_distance := None\<rparr>
                else s)
         \<and> close_pause err ps cum t0 s (ps ! i) (int i) = Inr (pause_record err ps cum t0 p0 k d0 i)
         \<and> end_time (pause_record err ps cum t0 p0 k d0 i) = fix_time (ps ! i)
         \<and> end_index (pause_record err ps cum t0 p0 k d0 i) = int i
         \<and> (pace = None \<longrightarrow> scan_step err cfg ps cum t0 (int i) s = Inr s)"
proof -
  have one: "1 \<le> length ps" using assms(1) by simp
  have c: "length cum = length ps" using cumulative_returned_length [OF one assms(2)] .
  have ok: "track_ok err ps" using cumulative_loop_returned(1) [OF one assms(2)] .
  note step = scan_step_paused [OF assms(1) c ok assms(3-8), of t0]
  note cl = close_pause_value [OF assms(1) c ok assms(4-6), of t0]
  have none: "pace = None \<longrightarrow> scan_step err cfg ps cum t0 (int i) s = Inr s"
    using step by simp
  have f: "end_time (pause_record err ps cum t0 p0 k d0 i) = fix_time (ps ! i)"
      "end_index (pause_record err ps cum t0 p0 k d0 i) = int i"
    by (simp_all add: pause_record_def)
  show ?thesis using cl f step none by blast
qed

lemma detect_pauses_result:
  assumes len: "2 \<le> length ps"
    and cum: "cumulative_loop err ps (py_range 0 (int (length ps) - 1)) [0] = Inr cum"
    and s: "scan_loop err cfg ps cum (fix_time (ps ! 0)) 0 initial_state = Inr s"
  shows "scan_invariant ps cum (length ps) s
         \<and> (\<not> in_pause s \<longrightarrow> detect_pauses err ps cfg = Inr (pauses s, ps))
         \<and> (in_pause s \<longrightarrow>
              (\<exists>k < length ps.
                 (\<forall>p \<in> set (pauses s). end_index p < int k)
                 \<and> close_pause_at_end err ps cum (fix_time (ps ! 0)) s
                     = Inr (pause_record err ps cum (fix_time (ps ! 0)) (ps ! k) k (cum ! k)
                              (length ps - 1))
                 \<and> detect_pauses err ps cfg =
                     Inr (pauses s @ [pause_record err ps cum (fix_time (ps ! 0)) (ps ! k) k
                                        (cum ! k) (length ps - 1)], ps)))"
proof -
  have one: "1 \<le> length ps" using len by simp
  have c: "length cum = length ps" using cumulative_returned_length [OF one cum] .
  have ok: "track_ok err ps" using cumulative_loop_returned(1) [OF one cum] .
  have s0: "scan_loop err cfg ps cum (fix_time (ps ! 0)) (int 0) initial_state = Inr s"
    using s by simp
  have inv: "scan_invariant ps cum (length ps) s"
    by (rule scan_loop_invariant [OF c ok _ initial_invariant s0]) simp
  have idle: "\<not> in_pause s \<longrightarrow> detect_pauses err ps cfg = Inr (pauses s, ps)"
    by (simp add: detect_pauses_unfold [OF len] cum s)
  have paused: "in_pause s \<longrightarrow>
              (\<exists>k < length ps.
                 (\<forall>p \<in> set (pauses s). end_index p < int k)
                 \<and> close_pause_at_end err ps cum (fix_time (ps ! 0)) s
                     = Inr (pause_record err ps cum (fix_time (ps ! 0)) (ps ! k) k (cum ! k)
                              (length ps - 1))
                 \<and> detect_pauses err ps cfg =
                     Inr (pauses s @ [pause_record err ps cum (fix_time (ps ! 0)) (ps ! k) k
                                        (cum ! k) (length ps - 1)], ps))"
  proof
    assume p: "in_pause s"
    then obtain k where k: "k < length ps" "pause_start_index s = Some (int k)"
        "pause_start s = Some (ps ! k)" "pause_start_distance s = Some (cum ! k)"
        "\<forall>p \<in> set (pauses s). end_index p < int k"
      using inv by (auto simp: scan_invariant_def)
    note cl = close_pause_at_end_value [OF one c ok k(3) k(2) k(4), of "fix_time (ps ! 0)"]
    have "detect_pauses err ps cfg =
            Inr (pauses s @ [pause_record err ps cum (fix_time (ps ! 0)) (ps ! k) k
                               (cum ! k) (length ps - 1)], ps)"
      by (simp add: detect_pauses_unfold [OF len] cum s p cl)
    then show "\<exists>k < length ps.
                 (\<forall>p \<in> set (pauses s). end_index p < int k)
                 \<and> close_pause_at_end err ps cum (fix_time (ps ! 0)) s
                     = Inr (pause_record err ps cum (fix_time (ps ! 0)) (ps ! k) k (cum ! k)
                              (length ps - 1))
                 \<and> detect_pauses err ps cfg =
                     Inr (pauses s @ [pause_record err ps cum (fix_time (ps ! 0)) (ps ! k) k
                                        (cum ! k) (length ps - 1)], ps)"
      using k cl by blast
  qed
  show ?thesis using inv idle paused by blast
qed

lemma detect_pauses_returned:
  assumes len: "2 \<le> length ps" and r: "detect_pauses err ps cfg = Inr (found, qs)"
  shows "\<exists>cum s. cumulative_loop err ps (py_range 0 (int (length ps) - 1)) [0] = Inr cum
                \<and> scan_loop err cfg ps cum (fix_time (ps ! 0)) 0 initial_state = Inr s"
  using r unfolding detect_pauses_unfold [OF len] by (auto simp: bindE_eq_Inr)

lemma detect_pauses_total:
  assumes len: "2 \<le> length ps" and ok: "pairs_ok err ps"
  shows "\<exists>found. detect_pauses err ps cfg = Inr (found, ps)"
proof -
  have one: "1 \<le> length ps" using len by simp
  have cum: "cumulative_loop err ps (py_range 0 (int (length ps) - 1)) [0]
               = Inr (cumulative err ps)"
    using cumulative_loop_value [OF one, of err] pairs_ok_track [OF ok] by simp
  have c: "length (cumulative err ps) = length ps" by simp
  have "\<exists>s. scan_loop err cfg ps (cumulative err ps) (fix_time (ps ! 0)) (int 0) initial_state
               = Inr s"
    by (rule scan_loop_total [OF c ok _ initial_invariant]) simp
  then obtain s where s: "scan_loop err cfg ps (cumulative err ps) (fix_time (ps ! 0)) 0
                            initial_state = Inr s" by auto
  from detect_pauses_result [OF len cum s] show ?thesis by (cases "in_pause s") auto
qed

text \<open>
  C3. When the scan reaches the end of the track with a pause open, exactly one more
  record is appended, as the last element; it ends at the last fix (its timestamp,
  index \<open>n - 1\<close>) and is the record that a closure at the last index computes.
\<close>

theorem end_of_track:
  assumes "2 \<le> length ps"
    and "cumulative_loop err ps (py_range 0 (int (length ps) - 1)) [0] = Inr cum"
    and "scan_loop err cfg ps cum (fix_time (ps ! 0)) 0 initial_state = Inr s"
    and "in_pause s"
  shows "\<exists>info. detect_pauses err ps cfg = Inr (pauses s @ [info], ps)
           \<and> end_time info = fix_time (last ps)
           \<and> end_index info = int (length ps) - 1
           \<and> close_pause err ps cum (fix_time (ps ! 0)) s (last ps) (int (length ps) - 1)
               = Inr info"
proof -
  have ne: "ps \<noteq> []" using assms(1) by auto
  from detect_pauses_result [OF assms(1-3)] assms(4)
  obtain k where k: "k < length ps"
      "close_pause_at_end err ps cum (fix_time (ps ! 0)) s
         = Inr (pause_record err ps cum (fix_time (ps ! 0)) (ps ! k) k (cum ! k) (length ps - 1))"
      "detect_pauses err ps cfg =
         Inr (pauses s @ [pause_record err ps cum (fix_time (ps ! 0)) (ps ! k) k
                            (cum ! k) (length ps - 1)], ps)"
    by blast
  define info where "info = pause_record err ps cum (fix_time (ps ! 0)) (ps ! k) k
                              (cum ! k) (length ps - 1)"
  have l: "last ps = ps ! (length ps - 1)" using ne by (rule last_conv_nth)
  have e1: "end_time info = fix_time (last ps)" unfolding l by (simp add: info_def pause_record_def)
  have e2: "end_index info = int (length ps) - 1"
    using assms(1) by (simp add: info_def pause_record_def of_nat_diff)
  have e3: "close_pause err ps cum (fix_time (ps ! 0)) s (last ps) (int (length ps) - 1)
              = Inr info"
    using k(2) unfolding close_pause_at_end_same [OF ne] info_def .
  show ?thesis using k(3) e1 e2 e3 unfolding info_def [symmetric] by blast
qed

lemma invariant_ordered:
  assumes "scan_invariant ps cum i s"
  shows "sorted_wrt (\<lambda>p q. start_index p < start_index q \<and> end_index p < start_index q) (pauses s)"
proof -
  have a: "sorted_wrt (\<lambda>p q. end_index p < start_index q) (pauses s)"
    and b: "\<forall>p \<in> set (pauses s). start_index p < end_index p"
    using assms by (auto simp: scan_invariant_def)
  show ?thesis
  proof (rule sorted_wrt_mono_rel [OF _ a])
    fix p q :: pause_info
    assume "p \<in> set (pauses s)" and "end_index p < start_index q"
    then show "start_index p < start_index q \<and> end_index p < start_index q"
      using b by fastforce
  qed
qed

text \<open>
  C7. Whenever \<open>detect_pauses\<close> returns, its pauses are strictly increasing in
  \<open>start_index\<close>, and each one starts strictly after every earlier one has ended, so
  that no two of them share a fix. It returns whenever \<open>haversine\<close> returns on every
  pair of fixes of the track.
\<close>

theorem pauses_ordered:
  "(detect_pauses err ps cfg = Inr (found, qs) \<longrightarrow>
      sorted_wrt (\<lambda>p q. start_index p < start_index q \<and> end_index p < start_index q) found)
   \<and> (pairs_ok err ps \<longrightarrow> (\<exists>found. detect_pauses err ps cfg = Inr (found, ps)))"
proof (intro conjI impI)
  assume ok: "pairs_ok err ps"
  show "\<exists>found. detect_pauses err ps cfg = Inr (found, ps)"
  proof (cases "length ps < 2")
    case True
    then show ?thesis by (simp add: detect_pauses_short)
  next
    case False
    then show ?thesis using detect_pauses_total [OF _ ok] by simp
  qed
next
  assume r: "detect_pauses err ps cfg = Inr (found, qs)"
  show "sorted_wrt (\<lambda>p q. start_index p < start_index q \<and> end_index p < start_index q) found"
  proof (cases "length ps < 2")
    case True
    then show ?thesis using r by (simp add: detect_pauses_short)
  next
    case False
    then have len: "2 \<le> length ps" by simp
    from detect_pauses_returned [OF len r]
    obtain cum s where cum: "cumulative_loop err ps (py_range 0 (int (length ps) - 1)) [0] = Inr cum"
      and s: "scan_loop err cfg ps cum (fix_time (ps ! 0)) 0 initial_state = Inr s" by blast
    note res = detect_pauses_result [OF len cum s]
    then have inv: "scan_invariant ps cum (length ps) s" by blast
    note ord = invariant_ordered [OF inv]
    show ?thesis
    proof (cases "in_pause s")
      case False
      then have "found = pauses s" using res r by simp
      then show ?thesis using ord by simp
    next
      case True
      then obtain k where k: "\<forall>p \<in> set (pauses s). end_index p < int k"
          "detect_pauses err ps cfg =
             Inr (pauses s @ [pause_record err ps cum (fix_time (ps ! 0)) (ps ! k) k
                                (cum ! k) (length ps - 1)], ps)"
        using res by blast
      have b: "\<forall>p \<in> set (pauses s). start_index p < end_index p"
        using inv by (auto simp: scan_invariant_def)
      have "sorted_wrt (\<lambda>p q. start_index p < start_index q \<and> end_index p < start_index q)
              (pauses s @ [pause_record err ps cum (fix_time (ps ! 0)) (ps ! k) k
                                (cum ! k) (length ps - 1)])"
        using ord k(1) b by (fastforce simp: sorted_wrt_append pause_record_def)
      then show ?thesis using k(2) r by simp
    qed
  qed
qed

lemma pauses_shape_returned:
  assumes r: "detect_pauses err ps cfg = Inr (found, qs)"
  shows "\<forall>p \<in> set found. start_index p \<le> end_index p
            \<and> nb_points p = end_index p - start_index p + 1 \<and> 1 \<le> nb_points p"
proof (cases "length ps < 2")
  case True
  then show ?thesis using r by (simp add: detect_pauses_short)
next
  case False
  then have len: "2 \<le> length ps" by simp
  from detect_pauses_returned [OF len r]
  obtain cum s where cum: "cumulative_loop err ps (py_range 0 (int (length ps) - 1)) [0] = Inr cum"
    and s: "scan_loop err cfg ps cum (fix_time (ps ! 0)) 0 initial_state = Inr s" by blast
  note res = detect_pauses_result [OF len cum s]
  then have inv: "scan_invariant ps cum (length ps) s" by blast
  have b: "\<forall>p \<in> set (pauses s). start_index p < end_index p
             \<and> nb_points p = end_index p - start_index p + 1"
    using inv by (auto simp: scan_invariant_def)
  show ?thesis
  proof (cases "in_pause s")
    case False
    then have "found = pauses s" using res r by simp
    then show ?thesis using b by fastforce
  next
    case True
    then obtain k where k: "k < length ps"
        "detect_pauses err ps cfg =
           Inr (pauses s @ [pause_record err ps cum (fix_time (ps ! 0)) (ps ! k) k
                              (cum ! k) (length ps - 1)], ps)"
      using res by blast
    have f: "found = pauses s @ [pause_record err ps cum (fix_time (ps ! 0)) (ps ! k) k
                              (cum ! k) (length ps - 1)]"
      using k(2) r by simp
    have "int k \<le> int (length ps - 1)" using k(1) by simp
    then show ?thesis unfolding f using b by (fastforce simp: pause_record_def)
  qed
qed

lemma closed_pauses_proper:
  assumes "2 \<le> length ps"
    and "cumulative_loop err ps (py_range 0 (int (length ps) - 1)) [0] = Inr cum"
    and "scan_loop err cfg ps cum (fix_time (ps ! 0)) 0 initial_state = Inr s"
  shows "(\<forall>p \<in> set (pauses s). start_index p < end_index p)
         \<and> (\<exists>final. detect_pauses err ps cfg
                = Inr (if in_pause s then pauses s @ [final] else pauses s, ps))"
proof -
  note res = detect_pauses_result [OF assms]
  then have inv: "scan_invariant ps cum (length ps) s" by blast
  have b: "\<forall>p \<in> set (pauses s). start_index p < end_index p"
    using inv by (auto simp: scan_invariant_def)
  have "\<exists>final. detect_pauses err ps cfg
          = Inr (if in_pause s then pauses s @ [final] else pauses s, ps)"
    using res by (cases "in_pause s") auto
  then show ?thesis using b by blast
qed

subsection \<open>Tracks of two fixes\<close>

lemma two_track_ok: "track_ok err [(a0, b0, t0), (a1, b1, t1)] \<longleftrightarrow> in_domain err a0 b0 a1 b1"
  by (simp add: track_ok_def segment_ok_def)

lemma two_window_first:
  assumes "in_domain err a0 b0 a1 b1"
  shows "calculate_max_distance_window err [(a0, b0, t0), (a1, b1, t1)] 0 w
           = Inr (if t1 \<le> t0 + w then great_circle err a0 b0 a1 b1 else 0)"
  using great_circle_nonneg [OF assms] assms
  by (simp add: calculate_max_distance_window_def getitem_def py_range_def Let_def haversine_cases)

lemma two_window_last:
  "calculate_max_distance_window err [(a0, b0, t0), (a1, b1, t1)] 1 w = Inr 0"
  by (simp add: calculate_max_distance_window_def getitem_def py_range_def Let_def)

lemma two_pace_first:
  "calculate_average_pace_last_points err [(a0, b0, t0), (a1, b1, t1)] 0 n = Inr None"
  by (simp add: calculate_average_pace_last_points_def Let_def)

lemma two_pace_last:
  assumes "1 \<le> n" and "in_domain err a0 b0 a1 b1"
  shows "calculate_average_pace_last_points err [(a0, b0, t0), (a1, b1, t1)] 1 n
           = Inr (if great_circle err a0 b0 a1 b1 = 0 \<or> t1 - t0 = 0 then None
                  else Some ((t1 - t0) / great_circle err a0 b0 a1 b1 * 1000 / 60))"
proof -
  have "\<forall>k \<in> {nat (max 0 (int 1 - n))..<1}. segment_ok err [(a0, b0, t0), (a1, b1, t1)] k"
    using assms(2) by (simp add: segment_ok_def)
  from average_pace_value [OF _ this] assms(1) show ?thesis
    by (simp add: total_meters_def total_seconds_def segment_meters_def segment_seconds_def
        fix_time_def max_def)
qed

lemma two_density_first:
  "calculate_point_density_last_seconds [(a0, b0, t0), (a1, b1, t1)] 0 w = Inr None"
  by (simp add: calculate_point_density_last_seconds_def)

lemma two_density_last:
  "calculate_point_density_last_seconds [(a0, b0, t0), (a1, b1, t1)] 1 w
     = Inr (if 0 \<le> w \<and> t1 - t0 \<le> w \<and> t1 - t0 \<noteq> 0 then Some (2 / (t1 - t0)) else None)"
  using density_query_value [of 1 "[(a0, b0, t0), (a1, b1, t1)]" w]
  by (simp add: counted_back_def fix_time_def)

lemma scan_loop_two:
  assumes "length ps = 2"
  shows "scan_loop err cfg ps cum t 0 s =
           bindE (scan_step err cfg ps cum t 0 s) (\<lambda>s1. scan_step err cfg ps cum t 1 s1)"
proof -
  have stop: "scan_loop err cfg ps cum t 2 s2 = Inr s2" for s2
    using assms by (subst scan_loop.simps) simp
  have stop': "scan_loop err cfg ps cum t 2 = Inr" by (rule ext) (rule stop)
  have one: "scan_loop err cfg ps cum t 1 s1 = scan_step err cfg ps cum t 1 s1" for s1
    using assms by (subst scan_loop.simps) (simp add: stop' bindE_return)
  have one': "scan_loop err cfg ps cum t 1 = scan_step err cfg ps cum t 1"
    by (rule ext) (rule one)
  show ?thesis using assms by (subst scan_loop.simps) (simp add: one')
qed

lemma opened_at_fields:
  "in_pause (opened_at ps cum i)" "pauses (opened_at ps cum i) = []"
  "pause_start (opened_at ps cum i) = Some (ps ! i)"
  "pause_start_index (opened_at ps cum i) = Some (int i)"
  "pause_start_distance (opened_at ps cum i) = Some (cum ! i)"
  by (simp_all add: opened_at_def initial_state_def)

lemma two_step_first:
  assumes "length cum = 2" and "in_domain err a0 b0 a1 b1"
  shows "scan_step err default_config [(a0, b0, t0), (a1, b1, t1)] cum t 0 initial_state =
           Inr (if (if t1 \<le> t0 + 45 then great_circle err a0 b0 a1 b1 else 0) < 30
                then opened_at [(a0, b0, t0), (a1, b1, t1)] cum 0 else initial_state)"
proof -
  have i: "(0::nat) < length [(a0, b0, t0), (a1, b1, t1)]" by simp
  have c: "length cum = length [(a0, b0, t0), (a1, b1, t1)]" using assms by simp
  have n: "\<not> in_pause initial_state" by (simp add: initial_state_def)
  have md: "calculate_max_distance_window err [(a0, b0, t0), (a1, b1, t1)] (int 0)
              (time_window default_config)
              = Inr (if t1 \<le> t0 + 45 then great_circle err a0 b0 a1 b1 else 0)"
    by (simp add: two_window_first [OF assms(2)] default_config_def)
  have pc: "calculate_average_pace_last_points err [(a0, b0, t0), (a1, b1, t1)] (int 0)
              (nb_points_pace default_config) = Inr None"
    by (simp add: two_pace_first)
  have dn: "calculate_point_density_last_seconds [(a0, b0, t0), (a1, b1, t1)] (int 0)
              (density_window default_config) = Inr None"
    by (simp add: two_density_first)
  show ?thesis
    using scan_step_idle [OF i c n md pc dn, of t]
    by (simp add: opened_at_def default_config_def)
qed

lemma two_step_last_paused:
  assumes "length cum = 2" and "in_domain err a0 b0 a1 b1"
  shows "scan_step err default_config [(a0, b0, t0), (a1, b1, t1)] cum t 1
           (opened_at [(a0, b0, t0), (a1, b1, t1)] cum 0)
         = Inr (opened_at [(a0, b0, t0), (a1, b1, t1)] cum 0)"
proof -
  let ?ps = "[(a0, b0, t0), (a1, b1, t1)]"
  let ?s = "opened_at ?ps cum 0"
  have i: "(1::nat) < length ?ps" by simp
  have c: "length cum = length ?ps" using assms by simp
  have ok: "track_ok err ?ps" using assms(2) by (simp add: two_track_ok)
  have p: "in_pause ?s" "pause_start ?s = Some (a0, b0, t0)" "pause_start_index ?s = Some (int 0)"
      "pause_start_distance ?s = Some (cum ! 0)"
    by (simp_all add: opened_at_def)
  have md: "calculate_max_distance_window err ?ps (int 1) (time_window_end default_config) = Inr 0"
    by (simp add: two_window_last)
  obtain pace where pc: "calculate_average_pace_last_points err ?ps (int 1)
                           (nb_points_pace_end default_config) = Inr pace"
    using pace_query_total [OF i ok] by blast
  show ?thesis
    using scan_step_paused [OF i c ok p md pc, of t]
    by (simp add: default_config_def)
qed

lemma two_step_last_idle:
  assumes "length cum = 2" and "0 \<le> t1 - t0" and "30 \<le> great_circle err a0 b0 a1 b1"
    and "in_domain err a0 b0 a1 b1"
  shows "scan_step err default_config [(a0, b0, t0), (a1, b1, t1)] cum t 1 initial_state =
           Inr (if t1 - t0 = 0
                   \<or> (2 < t1 - t0 \<and> 15 < (t1 - t0) / great_circle err a0 b0 a1 b1 * 1000 / 60)
                then opened_at [(a0, b0, t0), (a1, b1, t1)] cum 1 else initial_state)"
proof -
  let ?ps = "[(a0, b0, t0), (a1, b1, t1)]"
  define d where "d = great_circle err a0 b0 a1 b1"
  define dt where "dt = t1 - t0"
  have d: "30 \<le> d" using assms(3) by (simp add: d_def)
  have dt: "0 \<le> dt" using assms(2) by (simp add: dt_def)
  have i: "(1::nat) < length ?ps" by simp
  have c: "length cum = length ?ps" using assms by simp
  have n: "\<not> in_pause initial_state" by (simp add: initial_state_def)
  have md: "calculate_max_distance_window err ?ps (int 1) (time_window default_config) = Inr 0"
    by (simp add: two_window_last)
  have pc: "calculate_average_pace_last_points err ?ps (int 1) (nb_points_pace default_config)
              = Inr (if d = 0 \<or> dt = 0 then None else Some (dt / d * 1000 / 60))"
    using two_pace_last [of 10 err a0 b0 a1 b1 t0 t1] assms(4)
    by (simp add: default_config_def d_def dt_def)
  have dn: "calculate_point_density_last_seconds ?ps (int 1) (density_window default_config)
              = Inr (if 0 \<le> (30::real) \<and> dt \<le> 30 \<and> dt \<noteq> 0 then Some (2 / dt) else None)"
    using two_density_last [of a0 b0 t0 a1 b1 t1 30] by (simp add: default_config_def dt_def)
  have dens: "(2 / dt < 1) = (2 < dt)" if "dt \<noteq> 0" using that dt by (simp add: field_simps)
  have crit: "((0::real) < 30
               \<and> ((if d = 0 \<or> dt = 0 then None else Some (dt / d * 1000 / 60)) = None
                    \<or> (\<exists>v. (if d = 0 \<or> dt = 0 then None else Some (dt / d * 1000 / 60)) = Some v
                           \<and> 15 < v))
               \<and> ((if 0 \<le> (30::real) \<and> dt \<le> 30 \<and> dt \<noteq> 0 then Some (2 / dt) else None) = None
                    \<or> (\<exists>v. (if 0 \<le> (30::real) \<and> dt \<le> 30 \<and> dt \<noteq> 0 then Some (2 / dt) else None) = Some v
                           \<and> v < 1)))
             = (dt = 0 \<or> (2 < dt \<and> 15 < dt / d * 1000 / 60))"
    using d dt dens by auto
  have "scan_step err default_config ?ps cum t (int 1) initial_state =
          Inr (if dt = 0 \<or> (2 < dt \<and> 15 < dt / d * 1000 / 60)
               then opened_at ?ps cum 1 else initial_state)"
    unfolding scan_step_idle [OF i c n md pc dn, of t] opened_at_def
    using crit by (simp add: default_config_def)
  then show ?thesis by (simp add: d_def dt_def)
qed

lemma two_scan:
  assumes "length cum = 2" and "t0 \<le> t1" and "in_domain err a0 b0 a1 b1"
  shows "scan_loop err default_config [(a0, b0, t0), (a1, b1, t1)] cum t 0 initial_state =
           Inr (if (if t1 \<le> t0 + 45 then great_circle err a0 b0 a1 b1 else 0) < 30
                then opened_at [(a0, b0, t0), (a1, b1, t1)] cum 0
                else if t1 - t0 = 0
                        \<or> (2 < t1 - t0
                            \<and> 15 < (t1 - t0) / great_circle err a0 b0 a1 b1 * 1000 / 60)
                     then opened_at [(a0, b0, t0), (a1, b1, t1)] cum 1
                     else initial_state)"
proof -
  let ?ps = "[(a0, b0, t0), (a1, b1, t1)]"
  have l: "length ?ps = 2" by simp
  have dt: "0 \<le> t1 - t0" using assms(2) by simp
  show ?thesis
  proof (cases "(if t1 \<le> t0 + 45 then great_circle err a0 b0 a1 b1 else 0) < 30")
    case True
    then show ?thesis
      by (simp only: scan_loop_two [OF l] two_step_first [OF assms(1,3)] if_True bindE_Inr
          two_step_last_paused [OF assms(1,3)])
  next
    case False
    then have d: "30 \<le> great_circle err a0 b0 a1 b1" by (simp split: if_splits)
    from False show ?thesis
      by (simp only: scan_loop_two [OF l] two_step_first [OF assms(1,3)] if_False bindE_Inr
          two_step_last_idle [OF assms(1) dt d assms(3)])
  qed
qed

lemma detect_pauses_opened:
  assumes "2 \<le> length ps" and "track_ok err ps"
    and "scan_loop err cfg ps (cumulative err ps) (fix_time (ps ! 0)) 0 initial_state
           = Inr (opened_at ps (cumulative err ps) i)"
  shows "detect_pauses err ps cfg =
           Inr ([pause_record err ps (cumulative err ps) (fix_time (ps ! 0)) (ps ! i) i
                   (cumulative err ps ! i) (length ps - 1)], ps)"
proof -
  have one: "1 \<le> length ps" using assms(1) by simp
  have c: "length (cumulative err ps) = length ps" by simp
  have cum: "cumulative_loop err ps (py_range 0 (int (length ps) - 1)) [0]
               = Inr (cumulative err ps)"
    using cumulative_loop_value [OF one, of err] assms(2) by simp
  note cl = close_pause_at_end_value [OF one c assms(2) opened_at_fields(3,4,5),
              of "fix_time (ps ! 0)"]
  show ?thesis
    by (simp add: detect_pauses_unfold [OF assms(1)] cum assms(3) opened_at_fields cl)
qed

lemma detect_pauses_idle:
  assumes "2 \<le> length ps" and "track_ok err ps"
    and "scan_loop err cfg ps (cumulative err ps) (fix_time (ps ! 0)) 0 initial_state
           = Inr initial_state"
  shows "detect_pauses err ps cfg = Inr ([], ps)"
proof -
  have one: "1 \<le> length ps" using assms(1) by simp
  have cum: "cumulative_loop err ps (py_range 0 (int (length ps) - 1)) [0]
               = Inr (cumulative err ps)"
    using cumulative_loop_value [OF one, of err] assms(2) by simp
  have a: "\<not> in_pause initial_state" "pauses initial_state = []"
    by (simp_all add: initial_state_def)
  show ?thesis by (simp add: detect_pauses_unfold [OF assms(1)] cum assms(3) a)
qed

text \<open>
  C4. On two fixes with non-decreasing timestamps on which \<open>haversine\<close> returns, and
  with the default configuration, \<open>detect_pauses\<close> does not raise and returns at most
  one pause, which ends at the last fix. The list is empty exactly when the fixes
  are at least 30 m apart, the elapsed time \<open>dt\<close> satisfies \<open>0 < dt \<le> 45\<close>, and it is
  not the case that \<open>dt > 2\<close> with a pace above 15 min/km. It is not empty for every
  two fixes: "no data" counts as met for the start criteria, so that two fixes at
  one place open a pause at index 0.
\<close>

theorem two_fixes:
  assumes "t0 \<le> t1" and "in_domain err a0 b0 a1 b1"
  shows "\<exists>found. detect_pauses err [(a0, b0, t0), (a1, b1, t1)] default_config
                    = Inr (found, [(a0, b0, t0), (a1, b1, t1)])
           \<and> length found \<le> 1
           \<and> (\<forall>p \<in> set found. end_index p = 1 \<and> end_time p = t1)
           \<and> (found = [] \<longleftrightarrow>
                 30 \<le> great_circle err a0 b0 a1 b1 \<and> 0 < t1 - t0 \<and> t1 - t0 \<le> 45
                 \<and> \<not> (2 < t1 - t0
                        \<and> 15 < (t1 - t0) / great_circle err a0 b0 a1 b1 * 1000 / 60))"
proof -
  let ?ps = "[(a0, b0, t0), (a1, b1, t1)]"
  let ?d = "great_circle err a0 b0 a1 b1"
  have len: "2 \<le> length ?ps" by simp
  have c: "length (cumulative err ?ps) = 2" by simp
  have ok: "track_ok err ?ps" using assms(2) by (simp add: two_track_ok)
  note scan = two_scan [OF c assms, of "fix_time (?ps ! 0)"]
  have rec: "end_index (pause_record err ?ps cum t p k d0 (length ?ps - 1)) = 1
             \<and> end_time (pause_record err ?ps cum t p k d0 (length ?ps - 1)) = t1" for cum t p k d0
    by (simp add: pause_record_def fix_time_def)
  consider (first) "(if t1 \<le> t0 + 45 then ?d else 0) < 30"
    | (last) "\<not> (if t1 \<le> t0 + 45 then ?d else 0) < 30"
        "t1 - t0 = 0 \<or> (2 < t1 - t0 \<and> 15 < (t1 - t0) / ?d * 1000 / 60)"
    | (none) "\<not> (if t1 \<le> t0 + 45 then ?d else 0) < 30"
        "\<not> (t1 - t0 = 0 \<or> (2 < t1 - t0 \<and> 15 < (t1 - t0) / ?d * 1000 / 60))"
    by blast
  then show ?thesis
  proof cases
    case first
    define r0 where "r0 = pause_record err ?ps (cumulative err ?ps) (fix_time (?ps ! 0)) (?ps ! 0) 0
                            (cumulative err ?ps ! 0) (length ?ps - 1)"
    have "scan_loop err default_config ?ps (cumulative err ?ps) (fix_time (?ps ! 0)) 0 initial_state
            = Inr (opened_at ?ps (cumulative err ?ps) 0)"
      using first scan by (simp only: if_True)
    from detect_pauses_opened [OF len ok this]
    have r: "detect_pauses err ?ps default_config = Inr ([r0], ?ps)" unfolding r0_def .
    have e: "end_index r0 = 1 \<and> end_time r0 = t1" unfolding r0_def by (rule rec)
    have n: "\<not> (30 \<le> ?d \<and> 0 < t1 - t0 \<and> t1 - t0 \<le> 45
                \<and> \<not> (2 < t1 - t0 \<and> 15 < (t1 - t0) / ?d * 1000 / 60))"
      using first by (auto split: if_splits)
    show ?thesis unfolding r using e n by auto
  next
    case last
    define r1 where "r1 = pause_record err ?ps (cumulative err ?ps) (fix_time (?ps ! 0)) (?ps ! 1) 1
                            (cumulative err ?ps ! 1) (length ?ps - 1)"
    have "scan_loop err default_config ?ps (cumulative err ?ps) (fix_time (?ps ! 0)) 0 initial_state
            = Inr (opened_at ?ps (cumulative err ?ps) 1)"
      using last scan by (simp only: if_True if_False)
    from detect_pauses_opened [OF len ok this]
    have r: "detect_pauses err ?ps default_config = Inr ([r1], ?ps)" unfolding r1_def .
    have e: "end_index r1 = 1 \<and> end_time r1 = t1" unfolding r1_def by (rule rec)
    have n: "\<not> (30 \<le> ?d \<and> 0 < t1 - t0 \<and> t1 - t0 \<le> 45
                \<and> \<not> (2 < t1 - t0 \<and> 15 < (t1 - t0) / ?d * 1000 / 60))"
      using last(2) by auto
    show ?thesis unfolding r using e n by auto
  next
    case none
    have "scan_loop err default_config ?ps (cumulative err ?ps) (fix_time (?ps ! 0)) 0 initial_state
            = Inr initial_state"
      using none scan by (simp only: if_False)
    from detect_pauses_idle [OF len ok this]
    have r: "detect_pauses err ?ps default_config = Inr ([], ?ps)" .
    have y: "30 \<le> ?d \<and> 0 < t1 - t0 \<and> t1 - t0 \<le> 45
               \<and> \<not> (2 < t1 - t0 \<and> 15 < (t1 - t0) / ?d * 1000 / 60)"
      using none assms(1) by (auto split: if_splits)
    show ?thesis unfolding r using y by auto
  qed
qed

subsection \<open>Three concrete tracks\<close>

lemma self_distance:
  assumes "err lat lon lat lon = 0"
  shows "in_domain err lat lon lat lon" and "great_circle err lat lon lat lon = 0"
  using assms
  by (simp_all add: in_domain_def computed_a_def great_circle_def haversine_a_same math_atan2_def)

lemma half_turn_back:
  assumes "err 0 180 0 0 = 0"
  shows "in_domain err 0 180 0 0" and "great_circle err 0 180 0 0 = 6371000 * pi"
proof -
  have a: "haversine_a 0 180 0 0 = 1"
    using haversine_a_sym [of 0 180 0 0] haversine_a_half_turn by simp
  show "in_domain err 0 180 0 0" and "great_circle err 0 180 0 0 = 6371000 * pi"
    using assms by (simp_all add: in_domain_def computed_a_def great_circle_def a math_atan2_def)
qed

lemma half_equator_far: "30 \<le> 6371000 * pi"
  using pi_ge_two by simp

text \<open>Two fixes at one place, one second apart: a pause opens at the first fix.\<close>

lemma still_track_scan:
  assumes "err 0 0 0 0 = 0"
  shows "scan_loop err default_config [(0, 0, 0), (0, 0, 1)] (cumulative err [(0, 0, 0), (0, 0, 1)])
           0 0 initial_state
         = Inr (opened_at [(0, 0, 0), (0, 0, 1)] (cumulative err [(0, 0, 0), (0, 0, 1)]) 0)"
proof -
  have dom: "in_domain err 0 0 0 0" and z: "great_circle err 0 0 0 0 = 0"
    using assms self_distance [of err 0 0] by simp_all
  show ?thesis
    using two_scan [of "cumulative err [(0, 0, 0), (0, 0, 1)]" 0 1 err 0 0 0 0 0] dom z
    by simp
qed

lemma still_track_cumulative:
  assumes "err 0 0 0 0 = 0"
  shows "cumulative err [(0, 0, 0), (0, 0, 1)] = [0, 0]"
proof -
  have z: "great_circle err 0 0 0 0 = 0" using assms self_distance(2) [of err 0 0] by simp
  show ?thesis by (simp add: cumulative_def total_meters_def segment_meters_def z)
qed

lemma still_track:
  assumes "err 0 0 0 0 = 0"
  shows "detect_pauses err [(0, 0, 0), (0, 0, 1)] default_config =
           Inr ([pause_record err [(0, 0, 0), (0, 0, 1)] [0, 0] 0 (0, 0, 0) 0 0 1],
                [(0, 0, 0), (0, 0, 1)])"
proof -
  let ?ps = "[(0, 0, 0), (0, 0, 1)] :: point list"
  have len: "2 \<le> length ?ps" by simp
  have dom: "in_domain err 0 0 0 0" using assms self_distance(1) [of err 0 0] by simp
  have ok: "track_ok err ?ps" using dom by (simp add: two_track_ok)
  have s: "scan_loop err default_config ?ps (cumulative err ?ps) (fix_time (?ps ! 0)) 0 initial_state
             = Inr (opened_at ?ps (cumulative err ?ps) 0)"
    using assms still_track_scan [of err] by (simp add: fix_time_def)
  have cum: "cumulative err ?ps = [0, 0]" using assms still_track_cumulative [of err] by simp
  from detect_pauses_opened [OF len ok s] show ?thesis
    by (simp add: cum fix_time_def)
qed

text \<open>
  Two fixes half the equator apart with one timestamp: the distance stops a pause
  at the first fix, and with no pace and no density a pause opens at the last.
\<close>

lemma jump_track:
  assumes "err 0 0 0 180 = 0"
  shows "detect_pauses err [(0, 0, 0), (0, 180, 0)] default_config =
           Inr ([pause_record err [(0, 0, 0), (0, 180, 0)] [0, 6371000 * pi] 0 (0, 180, 0) 1
                   (6371000 * pi) 1],
                [(0, 0, 0), (0, 180, 0)])"
proof -
  let ?ps = "[(0, 0, 0), (0, 180, 0)] :: point list"
  have len: "2 \<le> length ?ps" by simp
  have dom: "in_domain err 0 0 0 180" and d: "great_circle err 0 0 0 180 = 6371000 * pi"
    using assms half_turn [of err] by simp_all
  have ok: "track_ok err ?ps" using dom by (simp add: two_track_ok)
  have cum: "cumulative err ?ps = [0, 6371000 * pi]"
    by (simp add: cumulative_def total_meters_def segment_meters_def d)
  have s: "scan_loop err default_config ?ps (cumulative err ?ps) (fix_time (?ps ! 0)) 0 initial_state
             = Inr (opened_at ?ps (cumulative err ?ps) 1)"
    using two_scan [of "cumulative err ?ps" 0 0 err 0 0 0 180 "fix_time (?ps ! 0)"] dom d
      half_equator_far
    by simp
  from detect_pauses_opened [OF len ok s] show ?thesis
    by (simp add: cum fix_time_def)
qed

subsection \<open>The statements on concrete tracks\<close>

lemma no_rounding_zero [simp]: "no_rounding lat1 lon1 lat2 lon2 = 0"
  by (simp add: no_rounding_def)

lemma pairs_ok_no_rounding: "pairs_ok no_rounding ps"
  by (simp add: pairs_ok_def in_domain_no_rounding)

lemma cumulative_loop_no_rounding:
  assumes "1 \<le> length ps"
  shows "cumulative_loop no_rounding ps (py_range 0 (int (length ps) - 1)) [0]
           = Inr (cumulative no_rounding ps)"
  using cumulative_loop_value [OF assms, of no_rounding]
    pairs_ok_track [OF pairs_ok_no_rounding, of ps]
  by simp

lemma still_cumulative_loop:
  "cumulative_loop no_rounding [(0, 0, 0), (0, 0, 1)]
     (py_range 0 (int (length ([(0, 0, 0), (0, 0, 1)] :: point list)) - 1)) [0] = Inr [0, 0]"
  using cumulative_loop_no_rounding [of "[(0, 0, 0), (0, 0, 1)]"]
    still_track_cumulative [of no_rounding]
  by simp

theorem start_transition_witness:
  "(0::nat) < length ([(0, 0, 0), (0, 0, 1)] :: point list)
   \<and> cumulative_loop no_rounding [(0, 0, 0), (0, 0, 1)]
         (py_range 0 (int (length ([(0, 0, 0), (0, 0, 1)] :: point list)) - 1)) [0] = Inr [0, 0]
   \<and> \<not> in_pause initial_state
   \<and> calculate_max_distance_window no_rounding [(0, 0, 0), (0, 0, 1)] (int 0)
         (time_window default_config) = Inr 0
   \<and> calculate_average_pace_last_points no_rounding [(0, 0, 0), (0, 0, 1)] (int 0)
         (nb_points_pace default_config) = Inr None
   \<and> calculate_point_density_last_seconds [(0, 0, 0), (0, 0, 1)] (int 0)
         (density_window default_config) = Inr None
   \<and> scan_step no_rounding default_config [(0, 0, 0), (0, 0, 1)] [0, 0] 0 (int 0) initial_state
       = Inr (initial_state\<lparr>in_pause := True, pause_start := Some (0, 0, 0),
                             pause_start_index := Some 0, pause_start_distance := Some 0\<rparr>)"
proof -
  let ?ps = "[(0, 0, 0), (0, 0, 1)] :: point list"
  have h1: "(0::nat) < length ?ps" by simp
  note h2 = still_cumulative_loop
  have h3: "\<not> in_pause initial_state" by (simp add: initial_state_def)
  have dom: "in_domain no_rounding 0 0 0 0" by (rule in_domain_no_rounding)
  have z: "great_circle no_rounding 0 0 0 0 = 0" using self_distance(2) [of no_rounding 0 0] by simp
  have h4: "calculate_max_distance_window no_rounding ?ps (int 0) (time_window default_config) = Inr 0"
    using two_window_first [OF dom, of 0 1 "time_window default_config"] by (simp add: z)
  have h5: "calculate_average_pace_last_points no_rounding ?ps (int 0)
              (nb_points_pace default_config) = Inr None"
    by (simp add: two_pace_first)
  have h6: "calculate_point_density_last_seconds ?ps (int 0) (density_window default_config)
              = Inr None"
    by (simp add: two_density_first)
  have "scan_step no_rounding default_config ?ps [0, 0] 0 (int 0) initial_state
       = Inr (initial_state\<lparr>in_pause := True, pause_start := Some (0, 0, 0),
                             pause_start_index := Some 0, pause_start_distance := Some 0\<rparr>)"
    using start_transition [OF h1 h2 h3 h4 h5 h6, of 0] by (simp add: default_config_def)
  then show ?thesis using h1 h2 h3 h4 h5 h6 by blast
qed

theorem end_of_track_witness:
  "2 \<le> length ([(0, 0, 0), (0, 0, 1)] :: point list)
   \<and> cumulative_loop no_rounding [(0, 0, 0), (0, 0, 1)]
         (py_range 0 (int (length ([(0, 0, 0), (0, 0, 1)] :: point list)) - 1)) [0] = Inr [0, 0]
   \<and> scan_loop no_rounding default_config [(0, 0, 0), (0, 0, 1)] [0, 0]
         (fix_time ([(0, 0, 0), (0, 0, 1)] ! 0)) 0 initial_state
       = Inr (opened_at [(0, 0, 0), (0, 0, 1)] [0, 0] 0)
   \<and> in_pause (opened_at [(0, 0, 0), (0, 0, 1)] [0, 0] 0)
   \<and> (\<exists>info. detect_pauses no_rounding [(0, 0, 0), (0, 0, 1)] default_config
                 = Inr (pauses (opened_at [(0, 0, 0), (0, 0, 1)] [0, 0] 0) @ [info],
                        [(0, 0, 0), (0, 0, 1)])
          \<and> end_time info = fix_time (last [(0, 0, 0), (0, 0, 1)])
          \<and> end_index info = int (length ([(0, 0, 0), (0, 0, 1)] :: point list)) - 1
          \<and> close_pause no_rounding [(0, 0, 0), (0, 0, 1)] [0, 0]
               (fix_time ([(0, 0, 0), (0, 0, 1)] ! 0))
               (opened_at [(0, 0, 0), (0, 0, 1)] [0, 0] 0) (last [(0, 0, 0), (0, 0, 1)])
               (int (length ([(0, 0, 0), (0, 0, 1)] :: point list)) - 1) = Inr info)"
proof -
  let ?ps = "[(0, 0, 0), (0, 0, 1)] :: point list"
  have h1: "2 \<le> length ?ps" by simp
  note h2 = still_cumulative_loop
  have h3: "scan_loop no_rounding default_config ?ps [0, 0] (fix_time (?ps ! 0)) 0 initial_state
              = Inr (opened_at ?ps [0, 0] 0)"
    using still_track_scan [of no_rounding] still_track_cumulative [of no_rounding]
    by (simp add: fix_time_def)
  have h4: "in_pause (opened_at ?ps [0, 0] 0)" by (rule opened_at_fields)
  note e = end_of_track [OF h1 h2 h3 h4]
  show ?thesis by (intro conjI h1 h2 h3 h4 e)
qed

theorem two_fixes_witness:
  "(0::real) \<le> 1 \<and> in_domain no_rounding 0 0 0 180
   \<and> detect_pauses no_rounding [(0, 0, 0), (0, 180, 1)] default_config
       = Inr ([], [(0, 0, 0), (0, 180, 1)])"
proof -
  have h1: "(0::real) \<le> 1" by simp
  have h2: "in_domain no_rounding 0 0 0 180" by (rule in_domain_no_rounding)
  have d: "great_circle no_rounding 0 0 0 180 = 6371000 * pi"
    using half_turn(2) [of no_rounding] by simp
  have "detect_pauses no_rounding [(0, 0, 0), (0, 180, 1)] default_config
          = Inr ([], [(0, 0, 0), (0, 180, 1)])"
    using two_fixes [OF h1 h2] half_equator_far by (auto simp: d)
  then show ?thesis using h1 h2 by blast
qed

text \<open>Two fixes at one place, one second apart: the list returned is not empty.\<close>

theorem two_fixes_counterexample:
  "detect_pauses no_rounding [(0, 0, 0), (0, 0, 1)] default_config
     \<noteq> Inr ([], [(0, 0, 0), (0, 0, 1)])"
  using still_track [of no_rounding] by simp

text \<open>
  C9. Every pause that \<open>detect_pauses\<close> returns has \<open>start_index \<le> end_index\<close> and
  \<open>nb_points = end_index - start_index + 1 \<ge> 1\<close>. The pauses closed during the scan,
  which are those of the final scan state, have \<open>start_index < end_index\<close>; the result
  is that list, followed by one more record when a pause is still open. That last
  record can be a single point: two fixes half the equator apart with one timestamp
  give one pause with \<open>start_index = end_index\<close>, one point and duration 0.
\<close>

theorem pauses_shape:
  "(detect_pauses err ps cfg = Inr (found, qs) \<longrightarrow>
      (\<forall>p \<in> set found. start_index p \<le> end_index p
           \<and> nb_points p = end_index p - start_index p + 1 \<and> 1 \<le> nb_points p))
   \<and> (2 \<le> length ps
        \<and> cumulative_loop err ps (py_range 0 (int (length ps) - 1)) [0] = Inr cum
        \<and> scan_loop err cfg ps cum (fix_time (ps ! 0)) 0 initial_state = Inr s \<longrightarrow>
          (\<forall>p \<in> set (pauses s). start_index p < end_index p)
          \<and> (\<exists>final. detect_pauses err ps cfg
                 = Inr (if in_pause s then pauses s @ [final] else pauses s, ps)))
   \<and> (err 0 0 0 180 = 0 \<longrightarrow>
        (\<exists>p. detect_pauses err [(0, 0, 0), (0, 180, 0)] default_config
                = Inr ([p], [(0, 0, 0), (0, 180, 0)])
             \<and> start_index p = end_index p \<and> nb_points p = 1 \<and> duration_seconds p = 0))"
proof (intro conjI impI)
  assume "detect_pauses err ps cfg = Inr (found, qs)"
  then show "\<forall>p \<in> set found. start_index p \<le> end_index p
           \<and> nb_points p = end_index p - start_index p + 1 \<and> 1 \<le> nb_points p"
    by (rule pauses_shape_returned)
next
  assume a: "2 \<le> length ps
        \<and> cumulative_loop err ps (py_range 0 (int (length ps) - 1)) [0] = Inr cum
        \<and> scan_loop err cfg ps cum (fix_time (ps ! 0)) 0 initial_state = Inr s"
  then have a1: "2 \<le> length ps"
    and a2: "cumulative_loop err ps (py_range 0 (int (length ps) - 1)) [0] = Inr cum"
    and a3: "scan_loop err cfg ps cum (fix_time (ps ! 0)) 0 initial_state = Inr s"
    by simp_all
  note r = closed_pauses_proper [OF a1 a2 a3]
  show "\<forall>p \<in> set (pauses s). start_index p < end_index p" using r by blast
  show "\<exists>final. detect_pauses err ps cfg
                 = Inr (if in_pause s then pauses s @ [final] else pauses s, ps)"
    using r by blast
next
  assume e: "err 0 0 0 180 = 0"
  let ?r = "pause_record err [(0, 0, 0), (0, 180, 0)] [0, 6371000 * pi] 0 (0, 180, 0) 1
              (6371000 * pi) 1"
  have d: "detect_pauses err [(0, 0, 0), (0, 180, 0)] default_config
             = Inr ([?r], [(0, 0, 0), (0, 180, 0)])"
    using e jump_track [of err] by simp
  have f: "start_index ?r = end_index ?r \<and> nb_points ?r = 1 \<and> duration_seconds ?r = 0"
    by (simp add: pause_record_def fix_time_def)
  show "\<exists>p. detect_pauses err [(0, 0, 0), (0, 180, 0)] default_config
                = Inr ([p], [(0, 0, 0), (0, 180, 0)])
             \<and> start_index p = end_index p \<and> nb_points p = 1 \<and> duration_seconds p = 0"
    using d f by blast
qed

subsection \<open>A track with two pauses\<close>

text \<open>
  Four fixes: a start, a fix half the equator away 100 s later, the start again one
  second after that, and the same place a long time later. A pause opens at the
  first fix and is closed at the second; nothing opens at the third, where the pace
  is fast and the density high; a pause opens at the last fix and is recorded when
  the track ends.
\<close>

lemma out_distances:
  "great_circle no_rounding 0 0 0 180 = 6371000 * pi"
  "great_circle no_rounding 0 180 0 0 = 6371000 * pi"
  "great_circle no_rounding 0 0 0 0 = 0"
  using half_turn(2) [of no_rounding] half_turn_back(2) [of no_rounding]
    self_distance(2) [of no_rounding 0 0]
  by simp_all

lemma out_cumulative:
  "cumulative no_rounding [(0, 0, 0), (0, 180, 100), (0, 0, 101), (0, 0, 100000000)]
     = [0, 6371000 * pi, 6371000 * pi + 6371000 * pi, 6371000 * pi + 6371000 * pi]"
  by (simp add: cumulative_def total_meters_def segment_meters_def out_distances
      upt_rec [of 0] numeral_eq_Suc)

lemma out_window_0:
  "calculate_max_distance_window no_rounding
     [(0, 0, 0), (0, 180, 100), (0, 0, 101), (0, 0, 100000000)] (int 0)
     (time_window default_config) = Inr 0"
  by (simp add: calculate_max_distance_window_def getitem_def py_range_def Let_def
      haversine_cases in_domain_no_rounding out_distances default_config_def upto.simps)

lemma out_window_1:
  "calculate_max_distance_window no_rounding
     [(0, 0, 0), (0, 180, 100), (0, 0, 101), (0, 0, 100000000)] (int 1)
     (time_window_end default_config) = Inr (6371000 * pi)"
  by (simp add: calculate_max_distance_window_def getitem_def py_range_def Let_def
      haversine_cases in_domain_no_rounding out_distances default_config_def upto.simps)

lemma out_window_2:
  "calculate_max_distance_window no_rounding
     [(0, 0, 0), (0, 180, 100), (0, 0, 101), (0, 0, 100000000)] (int 2)
     (time_window default_config) = Inr 0"
  by (simp add: calculate_max_distance_window_def getitem_def py_range_def Let_def
      haversine_cases in_domain_no_rounding out_distances default_config_def upto.simps)

lemma out_window_3:
  "calculate_max_distance_window no_rounding
     [(0, 0, 0), (0, 180, 100), (0, 0, 101), (0, 0, 100000000)] (int 3)
     (time_window default_config) = Inr 0"
  by (simp add: calculate_max_distance_window_def getitem_def py_range_def Let_def
      haversine_cases in_domain_no_rounding out_distances default_config_def upto.simps)


lemma out_segments: "segment_ok no_rounding ps k"
  by (cases "ps ! k"; cases "ps ! Suc k") (simp add: segment_ok_def in_domain_no_rounding)

lemma out_pace_0:
  "calculate_average_pace_last_points no_rounding [(0, 0, 0), (0, 180, 100), (0, 0, 101), (0, 0, 100000000)] (int 0)
     (nb_points_pace default_config) = Inr None"
  by (simp add: calculate_average_pace_last_points_def Let_def default_config_def)

lemma out_pace_1:
  "calculate_average_pace_last_points no_rounding [(0, 0, 0), (0, 180, 100), (0, 0, 101), (0, 0, 100000000)] (int 1)
     (nb_points_pace_end default_config) = Inr (Some (100 / (6371000 * pi) * 1000 / 60))"
proof -
  let ?ps = "[(0, 0, 0), (0, 180, 100), (0, 0, 101), (0, 0, 100000000)] :: point list"
  have i: "(1::nat) < length ?ps" by simp
  have ok: "\<forall>k \<in> {nat (max 0 (int 1 - nb_points_pace_end default_config))..<1}.
              segment_ok no_rounding ?ps k"
    by (simp add: out_segments)
  from average_pace_value [OF i ok] show ?thesis
    by (simp add: default_config_def total_meters_def total_seconds_def segment_meters_def
        segment_seconds_def fix_time_def out_distances)
qed

lemma out_pace_2:
  "calculate_average_pace_last_points no_rounding [(0, 0, 0), (0, 180, 100), (0, 0, 101), (0, 0, 100000000)] (int 2)
     (nb_points_pace default_config)
   = Inr (Some (101 / (6371000 * pi + 6371000 * pi) * 1000 / 60))"
proof -
  let ?ps = "[(0, 0, 0), (0, 180, 100), (0, 0, 101), (0, 0, 100000000)] :: point list"
  have i: "(2::nat) < length ?ps" by simp
  have ok: "\<forall>k \<in> {nat (max 0 (int 2 - nb_points_pace default_config))..<2}.
              segment_ok no_rounding ?ps k"
    by (simp add: out_segments)
  from average_pace_value [OF i ok] show ?thesis
    by (simp add: default_config_def total_meters_def total_seconds_def segment_meters_def
        segment_seconds_def fix_time_def out_distances upt_rec [of 0] numeral_eq_Suc)
qed

lemma out_pace_3:
  "calculate_average_pace_last_points no_rounding [(0, 0, 0), (0, 180, 100), (0, 0, 101), (0, 0, 100000000)] (int 3)
     (nb_points_pace default_config)
   = Inr (Some (100000000 / (6371000 * pi + 6371000 * pi) * 1000 / 60))"
proof -
  let ?ps = "[(0, 0, 0), (0, 180, 100), (0, 0, 101), (0, 0, 100000000)] :: point list"
  have i: "(3::nat) < length ?ps" by simp
  have ok: "\<forall>k \<in> {nat (max 0 (int 3 - nb_points_pace default_config))..<3}.
              segment_ok no_rounding ?ps k"
    by (simp add: out_segments)
  from average_pace_value [OF i ok] show ?thesis
    by (simp add: default_config_def total_meters_def total_seconds_def segment_meters_def
        segment_seconds_def fix_time_def out_distances upt_rec [of 0] numeral_eq_Suc)
qed

lemma out_density_0:
  "calculate_point_density_last_seconds [(0, 0, 0), (0, 180, 100), (0, 0, 101), (0, 0, 100000000)] (int 0) (density_window default_config) = Inr None"
  by (simp add: calculate_point_density_last_seconds_def)

lemma out_density_2:
  "calculate_point_density_last_seconds [(0, 0, 0), (0, 180, 100), (0, 0, 101), (0, 0, 100000000)] (int 2) (density_window default_config)
     = Inr (Some 2)"
  using density_query_value [of 2 "[(0, 0, 0), (0, 180, 100), (0, 0, 101), (0, 0, 100000000)]" "density_window default_config"]
  by (simp add: counted_back_def fix_time_def take_Suc_conv_app_nth numeral_2_eq_2
      default_config_def)

lemma out_density_3:
  "calculate_point_density_last_seconds [(0, 0, 0), (0, 180, 100), (0, 0, 101), (0, 0, 100000000)] (int 3) (density_window default_config)
     = Inr None"
  using density_query_value [of 3 "[(0, 0, 0), (0, 180, 100), (0, 0, 101), (0, 0, 100000000)]" "density_window default_config"]
  by (simp add: counted_back_def fix_time_def take_Suc_conv_app_nth numeral_3_eq_3
      default_config_def)


lemma out_pace_fast: "100 / (6371000 * pi) * 1000 / 60 < (20::real)"
proof -
  have "(100000::real) < 20 * 60 * (6371000 * 2)" by simp
  also have "\<dots> \<le> 20 * 60 * (6371000 * pi)" using pi_ge_two by simp
  finally show ?thesis using pi_gt_zero by (simp add: field_simps)
qed

lemma out_pace_not_slow: "\<not> 15 < 101 / (6371000 * pi + 6371000 * pi) * 1000 / (60::real)"
proof -
  have "(101000::real) \<le> 15 * 60 * (6371000 * 2 + 6371000 * 2)" by simp
  also have "\<dots> \<le> 15 * 60 * (6371000 * pi + 6371000 * pi)" using pi_ge_two by simp
  finally show ?thesis using pi_gt_zero by (simp add: field_simps)
qed

lemma out_pace_slow: "15 < 100000000 / (6371000 * pi + 6371000 * pi) * 1000 / (60::real)"
proof -
  have "15 * 60 * (6371000 * pi + 6371000 * pi) < 15 * 60 * (6371000 * 4 + 6371000 * 4)"
    using pi_less_4 by simp
  also have "\<dots> < (100000000000::real)" by simp
  finally show ?thesis using pi_gt_zero by (simp add: field_simps)
qed

lemma out_step_0:
  "scan_step no_rounding default_config [(0, 0, 0), (0, 180, 100), (0, 0, 101), (0, 0, 100000000)] (cumulative no_rounding [(0, 0, 0), (0, 180, 100), (0, 0, 101), (0, 0, 100000000)]) 0 (int 0) initial_state
     = Inr (opened_at [(0, 0, 0), (0, 180, 100), (0, 0, 101), (0, 0, 100000000)] (cumulative no_rounding [(0, 0, 0), (0, 180, 100), (0, 0, 101), (0, 0, 100000000)]) 0)"
proof -
  let ?ps = "[(0, 0, 0), (0, 180, 100), (0, 0, 101), (0, 0, 100000000)] :: point list"
  have i: "(0::nat) < length ?ps" by simp
  have c: "length (cumulative no_rounding ?ps) = length ?ps" by simp
  have n: "\<not> in_pause initial_state" by (simp add: initial_state_def)
  from scan_step_idle [OF i c n out_window_0 out_pace_0 out_density_0, of 0] show ?thesis
    by (simp add: default_config_def opened_at_def)
qed

lemma out_step_1:
  "scan_step no_rounding default_config [(0, 0, 0), (0, 180, 100), (0, 0, 101), (0, 0, 100000000)] (cumulative no_rounding [(0, 0, 0), (0, 180, 100), (0, 0, 101), (0, 0, 100000000)]) 0 (int 1)
     (opened_at [(0, 0, 0), (0, 180, 100), (0, 0, 101), (0, 0, 100000000)] (cumulative no_rounding [(0, 0, 0), (0, 180, 100), (0, 0, 101), (0, 0, 100000000)]) 0)
   = Inr (initial_state\<lparr>pauses :=
            [pause_record no_rounding [(0, 0, 0), (0, 180, 100), (0, 0, 101), (0, 0, 100000000)] (cumulative no_rounding [(0, 0, 0), (0, 180, 100), (0, 0, 101), (0, 0, 100000000)]) 0 (0, 0, 0) 0 0 1]\<rparr>)"
proof -
  let ?ps = "[(0, 0, 0), (0, 180, 100), (0, 0, 101), (0, 0, 100000000)] :: point list"
  let ?cum = "cumulative no_rounding ?ps"
  let ?s = "opened_at ?ps ?cum 0"
  have i: "(1::nat) < length ?ps" by simp
  have c: "length ?cum = length ?ps" by simp
  have ok: "track_ok no_rounding ?ps" by (simp add: track_ok_def out_segments)
  have h3: "in_pause ?s" by (rule opened_at_fields)
  have h4: "pause_start ?s = Some (0, 0, 0)" by (simp add: opened_at_fields)
  have h5: "pause_start_index ?s = Some (int 0)" by (simp add: opened_at_fields)
  have h6: "pause_start_distance ?s = Some 0"
    by (simp add: opened_at_fields cumulative_def total_meters_def)
  have far: "(30::real) < 6371000 * pi" using pi_ge_two by simp
  from scan_step_paused [OF i c ok h3 h4 h5 h6 out_window_1 out_pace_1, of 0] show ?thesis
    using far out_pace_fast by (simp add: default_config_def opened_at_def initial_state_def)
qed

lemma out_step_2:
  assumes "\<not> in_pause s"
  shows "scan_step no_rounding default_config [(0, 0, 0), (0, 180, 100), (0, 0, 101), (0, 0, 100000000)] (cumulative no_rounding [(0, 0, 0), (0, 180, 100), (0, 0, 101), (0, 0, 100000000)]) 0 (int 2) s = Inr s"
proof -
  let ?ps = "[(0, 0, 0), (0, 180, 100), (0, 0, 101), (0, 0, 100000000)] :: point list"
  have i: "(2::nat) < length ?ps" by simp
  have c: "length (cumulative no_rounding ?ps) = length ?ps" by simp
  from scan_step_idle [OF i c assms out_window_2 out_pace_2 out_density_2, of 0] show ?thesis
    using out_pace_not_slow by (simp add: default_config_def)
qed

lemma out_step_3:
  assumes "\<not> in_pause s"
  shows "scan_step no_rounding default_config [(0, 0, 0), (0, 180, 100), (0, 0, 101), (0, 0, 100000000)] (cumulative no_rounding [(0, 0, 0), (0, 180, 100), (0, 0, 101), (0, 0, 100000000)]) 0 (int 3) s
     = Inr (s\<lparr>in_pause := True, pause_start := Some (0, 0, 100000000),
               pause_start_index := Some 3,
               pause_start_distance := Some (6371000 * pi + 6371000 * pi)\<rparr>)"
proof -
  let ?ps = "[(0, 0, 0), (0, 180, 100), (0, 0, 101), (0, 0, 100000000)] :: point list"
  have i: "(3::nat) < length ?ps" by simp
  have c: "length (cumulative no_rounding ?ps) = length ?ps" by simp
  from scan_step_idle [OF i c assms out_window_3 out_pace_3 out_density_3, of 0] show ?thesis
    using out_pace_slow by (simp add: default_config_def out_cumulative)
qed


lemma scan_loop_four:
  assumes "length ps = 4"
  shows "scan_loop err cfg ps cum t 0 s =
           bindE (scan_step err cfg ps cum t 0 s) (\<lambda>s1.
           bindE (scan_step err cfg ps cum t 1 s1) (\<lambda>s2.
           bindE (scan_step err cfg ps cum t 2 s2) (\<lambda>s3. scan_step err cfg ps cum t 3 s3)))"
proof -
  have stop: "scan_loop err cfg ps cum t 4 s4 = Inr s4" for s4
    using assms by (subst scan_loop.simps) simp
  have stop': "scan_loop err cfg ps cum t 4 = Inr" by (rule ext) (rule stop)
  have three: "scan_loop err cfg ps cum t 3 s3 = scan_step err cfg ps cum t 3 s3" for s3
    using assms by (subst scan_loop.simps) (simp add: stop' bindE_return)
  have three': "scan_loop err cfg ps cum t 3 = scan_step err cfg ps cum t 3"
    by (rule ext) (rule three)
  have two: "scan_loop err cfg ps cum t 2 s2 =
               bindE (scan_step err cfg ps cum t 2 s2) (scan_step err cfg ps cum t 3)" for s2
    using assms by (subst scan_loop.simps) (simp add: three')
  have two': "scan_loop err cfg ps cum t 2 =
                (\<lambda>s2. bindE (scan_step err cfg ps cum t 2 s2) (scan_step err cfg ps cum t 3))"
    by (rule ext) (rule two)
  have one: "scan_loop err cfg ps cum t 1 s1 =
               bindE (scan_step err cfg ps cum t 1 s1) (\<lambda>s2.
               bindE (scan_step err cfg ps cum t 2 s2) (scan_step err cfg ps cum t 3))" for s1
    using assms by (subst scan_loop.simps) (simp add: two')
  have one': "scan_loop err cfg ps cum t 1 =
                (\<lambda>s1. bindE (scan_step err cfg ps cum t 1 s1) (\<lambda>s2.
                      bindE (scan_step err cfg ps cum t 2 s2) (scan_step err cfg ps cum t 3)))"
    by (rule ext) (rule one)
  show ?thesis using assms by (subst scan_loop.simps) (simp add: one')
qed

lemma out_scan:
  "scan_loop no_rounding default_config [(0, 0, 0), (0, 180, 100), (0, 0, 101), (0, 0, 100000000)] (cumulative no_rounding [(0, 0, 0), (0, 180, 100), (0, 0, 101), (0, 0, 100000000)]) 0 0 initial_state
     = Inr (initial_state
              \<lparr>pauses := [pause_record no_rounding [(0, 0, 0), (0, 180, 100), (0, 0, 101), (0, 0, 100000000)] (cumulative no_rounding [(0, 0, 0), (0, 180, 100), (0, 0, 101), (0, 0, 100000000)]) 0
                             (0, 0, 0) 0 0 1],
                in_pause := True, pause_start := Some (0, 0, 100000000),
                pause_start_index := Some 3,
                pause_start_distance := Some (6371000 * pi + 6371000 * pi)\<rparr>)"
proof -
  let ?ps = "[(0, 0, 0), (0, 180, 100), (0, 0, 101), (0, 0, 100000000)] :: point list"
  let ?cum = "cumulative no_rounding ?ps"
  let ?s2 = "initial_state\<lparr>pauses := [pause_record no_rounding ?ps ?cum 0 (0, 0, 0) 0 0 1]\<rparr>"
  have n: "\<not> in_pause ?s2" by (simp add: initial_state_def)
  have len: "length ?ps = 4" by simp
  have s0: "scan_step no_rounding default_config ?ps ?cum 0 0 initial_state
              = Inr (opened_at ?ps ?cum 0)"
    using out_step_0 by simp
  have s1: "scan_step no_rounding default_config ?ps ?cum 0 1 (opened_at ?ps ?cum 0) = Inr ?s2"
    using out_step_1 by simp
  have s2: "scan_step no_rounding default_config ?ps ?cum 0 2 ?s2 = Inr ?s2"
    using out_step_2 [OF n] by simp
  have s3: "scan_step no_rounding default_config ?ps ?cum 0 3 ?s2
              = Inr (?s2\<lparr>in_pause := True, pause_start := Some (0, 0, 100000000),
                         pause_start_index := Some 3,
                         pause_start_distance := Some (6371000 * pi + 6371000 * pi)\<rparr>)"
    using out_step_3 [OF n] by simp
  show ?thesis
    unfolding scan_loop_four [OF len] s0 bindE_Inr s1 s2 s3 by simp
qed

lemma out_and_back:
  "detect_pauses no_rounding [(0, 0, 0), (0, 180, 100), (0, 0, 101), (0, 0, 100000000)] default_config
     = Inr ([pause_record no_rounding [(0, 0, 0), (0, 180, 100), (0, 0, 101), (0, 0, 100000000)] (cumulative no_rounding [(0, 0, 0), (0, 180, 100), (0, 0, 101), (0, 0, 100000000)]) 0 (0, 0, 0) 0 0 1,
             pause_record no_rounding [(0, 0, 0), (0, 180, 100), (0, 0, 101), (0, 0, 100000000)] (cumulative no_rounding [(0, 0, 0), (0, 180, 100), (0, 0, 101), (0, 0, 100000000)]) 0 (0, 0, 100000000) 3
               (6371000 * pi + 6371000 * pi) 3],
            [(0, 0, 0), (0, 180, 100), (0, 0, 101), (0, 0, 100000000)])"
proof -
  let ?ps = "[(0, 0, 0), (0, 180, 100), (0, 0, 101), (0, 0, 100000000)] :: point list"
  let ?cum = "cumulative no_rounding ?ps"
  let ?r1 = "pause_record no_rounding ?ps ?cum 0 (0, 0, 0) 0 0 1"
  let ?s = "initial_state
              \<lparr>pauses := [?r1],
                in_pause := True, pause_start := Some (0, 0, 100000000),
                pause_start_index := Some 3,
                pause_start_distance := Some (6371000 * pi + 6371000 * pi)\<rparr>"
  have len: "2 \<le> length ?ps" by simp
  have one: "1 \<le> length ?ps" by simp
  have c: "length ?cum = length ?ps" by simp
  have ok: "track_ok no_rounding ?ps" by (simp add: track_ok_def out_segments)
  have cum: "cumulative_loop no_rounding ?ps (py_range 0 (int (length ?ps) - 1)) [0] = Inr ?cum"
    by (rule cumulative_loop_no_rounding) simp
  have s: "scan_loop no_rounding default_config ?ps ?cum (fix_time (?ps ! 0)) 0 initial_state
             = Inr ?s"
    using out_scan by (simp add: fix_time_def)
  have k3: "pause_start ?s = Some (?ps ! 3)" by simp
  have k2: "pause_start_index ?s = Some (int 3)" by simp
  have k4: "pause_start_distance ?s = Some (?cum ! 3)" by (simp add: out_cumulative)
  note cl = close_pause_at_end_value [OF one c ok k3 k2 k4, of "fix_time (?ps ! 0)"]
  have p: "in_pause ?s" by simp
  have "detect_pauses no_rounding ?ps default_config =
          Inr (pauses ?s @ [pause_record no_rounding ?ps ?cum (fix_time (?ps ! 0)) (?ps ! 3) 3
                              (?cum ! 3) (length ?ps - 1)], ?ps)"
    unfolding detect_pauses_unfold [OF len] cum bindE_Inr s using p cl by simp
  then show ?thesis by (simp add: fix_time_def out_cumulative numeral_3_eq_3)
qed

theorem end_transition_witness:
  "(1::nat) < length ([(0, 0, 0), (0, 180, 100), (0, 0, 101), (0, 0, 100000000)] :: point list)
   \<and> cumulative_loop no_rounding [(0, 0, 0), (0, 180, 100), (0, 0, 101), (0, 0, 100000000)] (py_range 0 (int (length ([(0, 0, 0), (0, 180, 100), (0, 0, 101), (0, 0, 100000000)] :: point list)) - 1)) [0]
       = Inr (cumulative no_rounding [(0, 0, 0), (0, 180, 100), (0, 0, 101), (0, 0, 100000000)])
   \<and> scan_step no_rounding default_config [(0, 0, 0), (0, 180, 100), (0, 0, 101), (0, 0, 100000000)] (cumulative no_rounding [(0, 0, 0), (0, 180, 100), (0, 0, 101), (0, 0, 100000000)]) 0 (int 0)
         initial_state
       = Inr (opened_at [(0, 0, 0), (0, 180, 100), (0, 0, 101), (0, 0, 100000000)] (cumulative no_rounding [(0, 0, 0), (0, 180, 100), (0, 0, 101), (0, 0, 100000000)]) 0)
   \<and> in_pause (opened_at [(0, 0, 0), (0, 180, 100), (0, 0, 101), (0, 0, 100000000)] (cumulative no_rounding [(0, 0, 0), (0, 180, 100), (0, 0, 101), (0, 0, 100000000)]) 0)
   \<and> calculate_max_distance_window no_rounding [(0, 0, 0), (0, 180, 100), (0, 0, 101), (0, 0, 100000000)] (int 1) (time_window_end default_config)
       = Inr (6371000 * pi)
   \<and> calculate_average_pace_last_points no_rounding [(0, 0, 0), (0, 180, 100), (0, 0, 101), (0, 0, 100000000)] (int 1)
         (nb_points_pace_end default_config) = Inr (Some (100 / (6371000 * pi) * 1000 / 60))
   \<and> scan_step no_rounding default_config [(0, 0, 0), (0, 180, 100), (0, 0, 101), (0, 0, 100000000)] (cumulative no_rounding [(0, 0, 0), (0, 180, 100), (0, 0, 101), (0, 0, 100000000)]) 0 (int 1)
         (opened_at [(0, 0, 0), (0, 180, 100), (0, 0, 101), (0, 0, 100000000)] (cumulative no_rounding [(0, 0, 0), (0, 180, 100), (0, 0, 101), (0, 0, 100000000)]) 0)
       = Inr (initial_state
                \<lparr>pauses := [pause_record no_rounding [(0, 0, 0), (0, 180, 100), (0, 0, 101), (0, 0, 100000000)] (cumulative no_rounding [(0, 0, 0), (0, 180, 100), (0, 0, 101), (0, 0, 100000000)]) 0
                               (0, 0, 0) 0 0 1]\<rparr>)
   \<and> end_index (pause_record no_rounding [(0, 0, 0), (0, 180, 100), (0, 0, 101), (0, 0, 100000000)] (cumulative no_rounding [(0, 0, 0), (0, 180, 100), (0, 0, 101), (0, 0, 100000000)]) 0 (0, 0, 0) 0 0 1) = 1
   \<and> end_time (pause_record no_rounding [(0, 0, 0), (0, 180, 100), (0, 0, 101), (0, 0, 100000000)] (cumulative no_rounding [(0, 0, 0), (0, 180, 100), (0, 0, 101), (0, 0, 100000000)]) 0 (0, 0, 0) 0 0 1) = 100"
proof -
  let ?ps = "[(0, 0, 0), (0, 180, 100), (0, 0, 101), (0, 0, 100000000)] :: point list"
  let ?cum = "cumulative no_rounding ?ps"
  let ?s = "opened_at ?ps ?cum 0"
  let ?r = "pause_record no_rounding ?ps ?cum 0 (0, 0, 0) 0 0 1"
  have h1: "(1::nat) < length ?ps" by simp
  have h2: "cumulative_loop no_rounding ?ps (py_range 0 (int (length ?ps) - 1)) [0] = Inr ?cum"
    by (rule cumulative_loop_no_rounding) simp
  note h0 = out_step_0
  have h3: "in_pause ?s" by (rule opened_at_fields)
  have h4: "pause_start ?s = Some (0, 0, 0)" by (simp add: opened_at_fields)
  have h5: "pause_start_index ?s = Some (int 0)" by (simp add: opened_at_fields)
  have h6: "pause_start_distance ?s = Some 0"
    by (simp add: opened_at_fields cumulative_def total_meters_def)
  note h7 = out_window_1
  note h8 = out_pace_1
  have far: "(30::real) < 6371000 * pi" using pi_ge_two by simp
  note t = end_transition [OF h1 h2 h3 h4 h5 h6 h7 h8, of 0]
  have c1: "scan_step no_rounding default_config ?ps ?cum 0 (int 1) ?s
          = Inr (initial_state\<lparr>pauses := [?r]\<rparr>)"
    using t far out_pace_fast
    by (simp add: default_config_def opened_at_def initial_state_def)
  have c2: "end_index ?r = 1" using t by simp
  have c3: "end_time ?r = 100" using t by (simp add: fix_time_def)
  show ?thesis by (intro conjI h1 h2 h0 h3 h7 h8 c1 c2 c3)
qed

theorem pauses_ordered_witness:
  "detect_pauses no_rounding [(0, 0, 0), (0, 180, 100), (0, 0, 101), (0, 0, 100000000)] default_config
     = Inr ([pause_record no_rounding [(0, 0, 0), (0, 180, 100), (0, 0, 101), (0, 0, 100000000)] (cumulative no_rounding [(0, 0, 0), (0, 180, 100), (0, 0, 101), (0, 0, 100000000)]) 0 (0, 0, 0) 0 0 1,
             pause_record no_rounding [(0, 0, 0), (0, 180, 100), (0, 0, 101), (0, 0, 100000000)] (cumulative no_rounding [(0, 0, 0), (0, 180, 100), (0, 0, 101), (0, 0, 100000000)]) 0 (0, 0, 100000000) 3
               (6371000 * pi + 6371000 * pi) 3],
            [(0, 0, 0), (0, 180, 100), (0, 0, 101), (0, 0, 100000000)])
   \<and> start_index (pause_record no_rounding [(0, 0, 0), (0, 180, 100), (0, 0, 101), (0, 0, 100000000)] (cumulative no_rounding [(0, 0, 0), (0, 180, 100), (0, 0, 101), (0, 0, 100000000)]) 0 (0, 0, 0) 0 0 1)
       < start_index (pause_record no_rounding [(0, 0, 0), (0, 180, 100), (0, 0, 101), (0, 0, 100000000)] (cumulative no_rounding [(0, 0, 0), (0, 180, 100), (0, 0, 101), (0, 0, 100000000)]) 0
                        (0, 0, 100000000) 3 (6371000 * pi + 6371000 * pi) 3)
   \<and> end_index (pause_record no_rounding [(0, 0, 0), (0, 180, 100), (0, 0, 101), (0, 0, 100000000)] (cumulative no_rounding [(0, 0, 0), (0, 180, 100), (0, 0, 101), (0, 0, 100000000)]) 0 (0, 0, 0) 0 0 1)
       < start_index (pause_record no_rounding [(0, 0, 0), (0, 180, 100), (0, 0, 101), (0, 0, 100000000)] (cumulative no_rounding [(0, 0, 0), (0, 180, 100), (0, 0, 101), (0, 0, 100000000)]) 0
                        (0, 0, 100000000) 3 (6371000 * pi + 6371000 * pi) 3)
   \<and> pairs_ok no_rounding [(0, 0, 0), (0, 180, 100), (0, 0, 101), (0, 0, 100000000)]
   \<and> (\<exists>found. detect_pauses no_rounding [(0, 0, 0), (0, 180, 100), (0, 0, 101), (0, 0, 100000000)] default_config = Inr (found, [(0, 0, 0), (0, 180, 100), (0, 0, 101), (0, 0, 100000000)]))"
proof -
  let ?ps = "[(0, 0, 0), (0, 180, 100), (0, 0, 101), (0, 0, 100000000)] :: point list"
  let ?cum = "cumulative no_rounding ?ps"
  let ?r1 = "pause_record no_rounding ?ps ?cum 0 (0, 0, 0) 0 0 1"
  let ?r2 = "pause_record no_rounding ?ps ?cum 0 (0, 0, 100000000) 3
               (6371000 * pi + 6371000 * pi) 3"
  note h1 = out_and_back
  have h2: "pairs_ok no_rounding ?ps" by (rule pairs_ok_no_rounding)
  note t = pauses_ordered [of no_rounding ?ps default_config "[?r1, ?r2]" ?ps]
  have o: "sorted_wrt (\<lambda>p q. start_index p < start_index q \<and> end_index p < start_index q)
             [?r1, ?r2]"
    using t h1 by blast
  have c1: "start_index ?r1 < start_index ?r2" using o by simp
  have c2: "end_index ?r1 < start_index ?r2" using o by simp
  have c3: "\<exists>found. detect_pauses no_rounding ?ps default_config = Inr (found, ?ps)"
    using t h2 by blast
  show ?thesis by (intro conjI h1 c1 c2 h2 c3)
qed

theorem pauses_shape_witness:
  "detect_pauses no_rounding [(0, 0, 0), (0, 180, 0)] default_config
     = Inr ([pause_record no_rounding [(0, 0, 0), (0, 180, 0)] [0, 6371000 * pi] 0 (0, 180, 0) 1
               (6371000 * pi) 1], [(0, 0, 0), (0, 180, 0)])
   \<and> start_index (pause_record no_rounding [(0, 0, 0), (0, 180, 0)] [0, 6371000 * pi] 0
                     (0, 180, 0) 1 (6371000 * pi) 1)
       \<le> end_index (pause_record no_rounding [(0, 0, 0), (0, 180, 0)] [0, 6371000 * pi] 0
                       (0, 180, 0) 1 (6371000 * pi) 1)
   \<and> 2 \<le> length ([(0, 0, 0), (0, 180, 100), (0, 0, 101), (0, 0, 100000000)] :: point list)
   \<and> cumulative_loop no_rounding [(0, 0, 0), (0, 180, 100), (0, 0, 101), (0, 0, 100000000)] (py_range 0 (int (length ([(0, 0, 0), (0, 180, 100), (0, 0, 101), (0, 0, 100000000)] :: point list)) - 1)) [0]
       = Inr (cumulative no_rounding [(0, 0, 0), (0, 180, 100), (0, 0, 101), (0, 0, 100000000)])
   \<and> scan_loop no_rounding default_config [(0, 0, 0), (0, 180, 100), (0, 0, 101), (0, 0, 100000000)] (cumulative no_rounding [(0, 0, 0), (0, 180, 100), (0, 0, 101), (0, 0, 100000000)])
         (fix_time ([(0, 0, 0), (0, 180, 100), (0, 0, 101), (0, 0, 100000000)] ! 0)) 0 initial_state
       = Inr (initial_state
                \<lparr>pauses := [pause_record no_rounding [(0, 0, 0), (0, 180, 100), (0, 0, 101), (0, 0, 100000000)] (cumulative no_rounding [(0, 0, 0), (0, 180, 100), (0, 0, 101), (0, 0, 100000000)]) 0
                               (0, 0, 0) 0 0 1],
                  in_pause := True, pause_start := Some (0, 0, 100000000),
                  pause_start_index := Some 3,
                  pause_start_distance := Some (6371000 * pi + 6371000 * pi)\<rparr>)
   \<and> start_index (pause_record no_rounding [(0, 0, 0), (0, 180, 100), (0, 0, 101), (0, 0, 100000000)] (cumulative no_rounding [(0, 0, 0), (0, 180, 100), (0, 0, 101), (0, 0, 100000000)]) 0 (0, 0, 0) 0 0 1)
       < end_index (pause_record no_rounding [(0, 0, 0), (0, 180, 100), (0, 0, 101), (0, 0, 100000000)] (cumulative no_rounding [(0, 0, 0), (0, 180, 100), (0, 0, 101), (0, 0, 100000000)]) 0 (0, 0, 0) 0 0 1)
   \<and> (\<exists>final. detect_pauses no_rounding [(0, 0, 0), (0, 180, 100), (0, 0, 101), (0, 0, 100000000)] default_config
                  = Inr ([pause_record no_rounding [(0, 0, 0), (0, 180, 100), (0, 0, 101), (0, 0, 100000000)] (cumulative no_rounding [(0, 0, 0), (0, 180, 100), (0, 0, 101), (0, 0, 100000000)]) 0
                            (0, 0, 0) 0 0 1, final], [(0, 0, 0), (0, 180, 100), (0, 0, 101), (0, 0, 100000000)]))
   \<and> no_rounding 0 0 0 180 = 0
   \<and> (\<exists>p. detect_pauses no_rounding [(0, 0, 0), (0, 180, 0)] default_config
              = Inr ([p], [(0, 0, 0), (0, 180, 0)])
           \<and> start_index p = end_index p \<and> nb_points p = 1 \<and> duration_seconds p = 0)"
proof -
  let ?ps = "[(0, 0, 0), (0, 180, 0)] :: point list"
  let ?r = "pause_record no_rounding ?ps [0, 6371000 * pi] 0 (0, 180, 0) 1 (6371000 * pi) 1"
  let ?qs = "[(0, 0, 0), (0, 180, 100), (0, 0, 101), (0, 0, 100000000)] :: point list"
  let ?cum = "cumulative no_rounding ?qs"
  let ?r1 = "pause_record no_rounding ?qs ?cum 0 (0, 0, 0) 0 0 1"
  let ?s = "initial_state
              \<lparr>pauses := [?r1], in_pause := True, pause_start := Some (0, 0, 100000000),
                pause_start_index := Some 3,
                pause_start_distance := Some (6371000 * pi + 6371000 * pi)\<rparr>"
  have h1: "detect_pauses no_rounding ?ps default_config = Inr ([?r], ?ps)"
    using jump_track [of no_rounding] by simp
  have h2: "2 \<le> length ?qs" by simp
  have h3: "cumulative_loop no_rounding ?qs (py_range 0 (int (length ?qs) - 1)) [0] = Inr ?cum"
    by (rule cumulative_loop_no_rounding) simp
  have h4: "scan_loop no_rounding default_config ?qs ?cum (fix_time (?qs ! 0)) 0 initial_state
              = Inr ?s"
    using out_scan by (simp add: fix_time_def)
  have h5: "no_rounding 0 0 0 180 = 0" by simp
  note t = pauses_shape [of no_rounding ?ps default_config "[?r]" ?ps]
  note u = pauses_shape [of no_rounding ?qs default_config _ _ ?cum ?s]
  have c1: "start_index ?r \<le> end_index ?r" using t [of ?cum ?s] h1 by simp
  have "\<forall>p \<in> set (pauses ?s). start_index p < end_index p" using u h2 h3 h4 by blast
  then have c2: "start_index ?r1 < end_index ?r1" by simp
  have "\<exists>final. detect_pauses no_rounding ?qs default_config
                  = Inr (if in_pause ?s then pauses ?s @ [final] else pauses ?s, ?qs)"
    using u h2 h3 h4 by blast
  then have c3: "\<exists>final. detect_pauses no_rounding ?qs default_config = Inr ([?r1, final], ?qs)"
    by simp
  have c4: "\<exists>p. detect_pauses no_rounding ?ps default_config = Inr ([p], ?ps)
                \<and> start_index p = end_index p \<and> nb_points p = 1 \<and> duration_seconds p = 0"
    using t [of ?cum ?s] h5 by blast
  show ?thesis by (intro conjI h1 c1 h2 h3 h4 c2 c3 h5 c4)
qed

end
